theory Spec2Isabelle
  imports Main "HOL-Library.Word"
begin

section \<open>Values shared by the command and the browser helper\<close>

text \<open>
  Go's \<^verbatim>\<open>int\<close> is a 64-bit two's complement integer on the platforms the tool is built
  for (the Dockerfile builds for linux on the host architecture); \<^verbatim>\<open>time.Duration\<close> is an
  \<^verbatim>\<open>int64\<close> count of nanoseconds. Both are words of 64 bits: \<open>+\<close> and \<open>*\<close> wrap, and
  the comparisons of the source are the signed ones.
\<close>

type_synonym goint = "64 word"
type_synonym duration = "64 word"

definition Second :: duration where
  "Second = 1000000000"

text \<open>\<^verbatim>\<open>time.Duration(n) * time.Second\<close>\<close>

definition seconds :: "goint \<Rightarrow> duration" where
  "seconds n = n * Second"

text \<open>
  An error is either produced by the environment (network, browser protocol, an expired
  deadline) or built by \<^verbatim>\<open>fmt.Errorf\<close> from a format string and its arguments. The same
  argument values are the attribute values of a \<^verbatim>\<open>slog\<close> call.
\<close>

datatype error = External string | Errorf string "arg list"
  and arg = S string | I goint | B bool | E error

datatype level = LevelDebug | LevelInfo | LevelWarn | LevelError

section \<open>String functions of the Go library used by the code\<close>

text \<open>Go strings are byte sequences, as \<^typ>\<open>string\<close> is.\<close>

fun HasPrefix :: "string \<Rightarrow> string \<Rightarrow> bool" where
  "HasPrefix s [] = True"
| "HasPrefix [] (p # ps) = False"
| "HasPrefix (c # cs) (p # ps) = (c = p \<and> HasPrefix cs ps)"

text \<open>\<^verbatim>\<open>strings.Contains(s, substr)\<close>: \<open>substr\<close> occurs in \<open>s\<close> at some offset.\<close>

fun Contains :: "string \<Rightarrow> string \<Rightarrow> bool" where
  "Contains [] substr = (substr = [])"
| "Contains (c # cs) substr = (HasPrefix (c # cs) substr \<or> Contains cs substr)"

text \<open>
  \<^verbatim>\<open>strings.Split(s, sep)\<close> for a separator of one byte, which is how the code calls it
  (\<^verbatim>\<open>":"\<close>): the pieces between the separators, \<open>n + 1\<close> of them for \<open>n\<close> separators.
\<close>

fun Split :: "string \<Rightarrow> char \<Rightarrow> string list" where
  "Split [] sep = [[]]"
| "Split (c # cs) sep =
     (if c = sep then [] # Split cs sep
      else (case Split cs sep of [] \<Rightarrow> [[c]] | p # ps \<Rightarrow> (c # p) # ps))"

text \<open>\<^verbatim>\<open>strings.Join(elems, sep)\<close>\<close>

fun Join :: "string list \<Rightarrow> string \<Rightarrow> string" where
  "Join [] sep = []"
| "Join [x] sep = x"
| "Join (x # y # ys) sep = x @ sep @ Join (y # ys) sep"

section \<open>Observable effects\<close>

text \<open>
  A session is driven through contexts derived from one another; a cancel function is
  identified by the context it was returned with.
\<close>

datatype "context" =
    Background
  | RemoteAllocator "context" string
  | TaskContext "context"
  | WithTimeout "context" duration

text \<open>The requests an action sends to the browser.\<close>

datatype request =
    PageNavigate string
  | SleepFor duration
  | RuntimeEvaluate string bool
  | EvaluateValue string
  | EvaluateStrings string
  | FullScreenshot nat
  | PagePrintToPDF bool
  | HandleJavaScriptDialog bool

text \<open>
  Everything the code does to the outside is appended to a trace: a \<^verbatim>\<open>slog\<close> call
  (level, message, attributes), the liveness probe, the registration of a listener, a
  request run on a context, a request handed to a goroutine, and the invocation of a
  cancel function.
\<close>

datatype event =
    Slog level string "(string \<times> arg) list"
  | HttpGet string
  | ListenTarget "context"
  | Call "context" request
  | Spawn "context" request
  | Canceled "context"

type_synonym trace = "event list"

fun is_call :: "event \<Rightarrow> bool" where
  "is_call (Call ctx r) = True"
| "is_call ev = False"

fun is_navigate :: "event \<Rightarrow> bool" where
  "is_navigate (Call ctx (PageNavigate url)) = True"
| "is_navigate ev = False"

fun is_probe :: "event \<Rightarrow> bool" where
  "is_probe (HttpGet url) = True"
| "is_probe ev = False"

section \<open>The command: delay validation and timeout adjustment\<close>

record Config =
  ConsoleLog :: bool
  Screenshot :: bool
  PrintToPDF :: bool
  GetBody :: bool
  GetTextByCssSelector :: string
  Timeout :: goint
  Delay :: goint
  Target :: string
  LogLevel :: string
  RemoteDebuggingPort :: string

text \<open>
  \<^verbatim>\<open>runThatCliWebBrowser\<close>, from the validation of the delay to the check that an action
  was requested (the statements between the resolution of the target and the call of
  \<^verbatim>\<open>InitializeChromedp\<close>). The configuration returned is the one whose \<open>Timeout\<close> and
  \<open>Delay\<close> are passed to \<^verbatim>\<open>InitializeChromedp\<close>.
\<close>

definition runThatCliWebBrowser_config :: "Config \<Rightarrow> trace \<Rightarrow> (error + Config) \<times> trace" where
  "runThatCliWebBrowser_config cfg tr =
     (if Delay cfg <s 0 then
        (Inl (Errorf ''delay cannot be negative: %d'' [I (Delay cfg)]),
         tr @ [Slog LevelError ''Invalid delay value'' [(''delay'', I (Delay cfg))]])
      else
        let tr1 = (if 60 <s Delay cfg
                   then tr @ [Slog LevelWarn ''Large delay value specified'' [(''delay'', I (Delay cfg))]]
                   else tr);
            (cfg2, tr2) =
              (if Timeout cfg \<le>s Delay cfg + 10 then
                 let originalTimeout = Timeout cfg;
                     cfg' = cfg\<lparr>Timeout := Delay cfg + 10\<rparr>
                 in (cfg', tr1 @ [Slog LevelInfo ''Timeout automatically adjusted to accommodate delay''
                                    [(''originalTimeout'', I originalTimeout),
                                     (''delay'', I (Delay cfg')),
                                     (''newTimeout'', I (Timeout cfg'))]])
               else (cfg, tr1))
        in if \<not> ConsoleLog cfg2 \<and> \<not> Screenshot cfg2 \<and> \<not> PrintToPDF cfg2 \<and> \<not> GetBody cfg2
              \<and> GetTextByCssSelector cfg2 = [] then
             (Inl (Errorf ''at least one action must be specified (--body, --screenshot, --printtopdf, --consolelog, or --gettextbycssselector)'' []),
              tr2 @ [Slog LevelError ''No action specified'' []])
           else (Inr cfg2, tr2))"

text \<open>The condition of the last check, on its own.\<close>

definition no_action :: "Config \<Rightarrow> bool" where
  "no_action cfg = (\<not> ConsoleLog cfg \<and> \<not> Screenshot cfg \<and> \<not> PrintToPDF cfg \<and> \<not> GetBody cfg
      \<and> GetTextByCssSelector cfg = [])"

text \<open>The log entry of the adjustment, as the call at the end of the adjusting branch writes it.\<close>

definition adjustment_entry :: "Config \<Rightarrow> event" where
  "adjustment_entry cfg = Slog LevelInfo ''Timeout automatically adjusted to accommodate delay''
      [(''originalTimeout'', I (Timeout cfg)), (''delay'', I (Delay cfg)),
       (''newTimeout'', I (Delay cfg + 10))]"

fun is_info :: "event \<Rightarrow> bool" where
  "is_info (Slog LevelInfo msg attrs) = True"
| "is_info ev = False"

text \<open>Two command lines: \<^verbatim>\<open>--screenshot --delay 15\<close> and \<^verbatim>\<open>--screenshot --delay 9223372036854775807\<close>,
  both with the default timeout of 10.\<close>

definition delay15_cfg :: Config where
  "delay15_cfg = \<lparr>ConsoleLog = False, Screenshot = True, PrintToPDF = False, GetBody = False,
     GetTextByCssSelector = [], Timeout = 10, Delay = 15, Target = ''https://example.com'',
     LogLevel = ''info'', RemoteDebuggingPort = []\<rparr>"

definition maxdelay_cfg :: Config where
  "maxdelay_cfg = \<lparr>ConsoleLog = False, Screenshot = True, PrintToPDF = False, GetBody = False,
     GetTextByCssSelector = [], Timeout = 10, Delay = 9223372036854775807,
     Target = ''https://example.com'', LogLevel = ''info'', RemoteDebuggingPort = []\<rparr>"

section \<open>The browser and its environment\<close>

text \<open>
  The browser, the network and the clock are outside the program. Each answer they give
  is a function of the trace so far and of the request, so an answer may depend on
  everything that happened before (the page loaded, the script injected, the time spent).
  An expired deadline or a session that cannot start shows as a failed request.
\<close>

type_synonym bytes = "8 word list"

record world =
  http_get :: "trace \<Rightarrow> string \<Rightarrow> error + nat \<times> error option"
  navigate :: "trace \<Rightarrow> context \<Rightarrow> string \<Rightarrow> error option"
  sleep :: "trace \<Rightarrow> context \<Rightarrow> duration \<Rightarrow> error option"
  runtime_evaluate :: "trace \<Rightarrow> context \<Rightarrow> string \<Rightarrow> bool \<Rightarrow> error + string option"
  evaluate_value :: "trace \<Rightarrow> context \<Rightarrow> string \<Rightarrow> error option"
  evaluate_strings :: "trace \<Rightarrow> context \<Rightarrow> string \<Rightarrow> error + string list"
  full_screenshot :: "trace \<Rightarrow> context \<Rightarrow> nat \<Rightarrow> error + bytes"
  print_to_pdf :: "trace \<Rightarrow> context \<Rightarrow> bool \<Rightarrow> error + bytes"

text \<open>
  \<^verbatim>\<open>http_get\<close> answers the probe with a network error, or with the status code and the
  outcome of closing the body; \<^verbatim>\<open>runtime_evaluate\<close> answers with a protocol error, or with
  the text of the exception details when the script threw or its promise was rejected.
\<close>

record Browser =
  Ctx :: "context"
  Cancel :: "trace \<Rightarrow> trace"
  TargetURL :: string
  Delay :: goint
  JSCode :: string

text \<open>Calling the cancel function returned with a context.\<close>

definition cancel :: "context \<Rightarrow> trace \<Rightarrow> trace" where
  "cancel ctx tr = tr @ [Canceled ctx]"

subsection \<open>Session establishment\<close>

definition InitializeChromedp ::
  "world \<Rightarrow> string \<Rightarrow> goint \<Rightarrow> goint \<Rightarrow> string \<Rightarrow> string \<Rightarrow> trace \<Rightarrow> (error + Browser) \<times> trace" where
  "InitializeChromedp w target timeout delay remoteDebuggingPort jsCode tr0 =
    (let tr = tr0 @ [Slog LevelDebug ''Initializing Chrome browser''
                      [(''target'', S target), (''timeout'', I timeout), (''delay'', I delay),
                       (''remotePort'', S remoteDebuggingPort), (''hasJSCode'', B (jsCode \<noteq> []))]]
     in
     if remoteDebuggingPort \<noteq> [] then
       let remoteURL =
             (if \<not> HasPrefix remoteDebuggingPort ''http://'' \<and> \<not> HasPrefix remoteDebuggingPort ''https://''
              then ''http://'' @ remoteDebuggingPort else remoteDebuggingPort)
       in
       if \<not> Contains remoteDebuggingPort '':'' then
         (Inl (Errorf ''invalid remote debugging port format: %s (expected format: localhost:9222)''
                 [S remoteDebuggingPort]), tr)
       else
         let parts = Split remoteDebuggingPort (CHR '':'') in
         if length parts \<noteq> 2 \<or> parts ! 0 = [] \<or> parts ! 1 = [] then
           (Inl (Errorf ''invalid remote debugging port format: %s (expected format: host:port)''
                   [S remoteDebuggingPort]), tr)
         else
           let testURL = remoteURL @ ''/json/version'';
               tr' = tr @ [Slog LevelDebug ''Testing connection to remote Chrome instance''
                             [(''testURL'', S testURL)]];
               tr1 = tr' @ [HttpGet testURL]
           in
           (case http_get w tr' testURL of
              Inl err \<Rightarrow>
                (Inl (Errorf ''failed to connect to remote debugging port %s: %w (ensure Chrome is running with --remote-debugging-port=%s)''
                        [S remoteDebuggingPort, E err, S (Split remoteDebuggingPort (CHR '':'') ! 1)]), tr1)
            | Inr (statusCode, closeErr) \<Rightarrow>
                let tr2 = (case closeErr of
                             None \<Rightarrow> tr1
                           | Some err \<Rightarrow> tr1 @ [Slog LevelWarn ''failed to close response body'' [(''error'', E err)]])
                in
                if statusCode \<noteq> 200 then
                  (Inl (Errorf ''remote debugging endpoint returned status %d at %s (ensure Chrome is running with remote debugging enabled)''
                          [I (of_nat statusCode), S testURL]), tr2)
                else
                  let tr3 = tr2 @ [Slog LevelDebug ''Successfully connected to remote Chrome instance'' [(''url'', S remoteURL)]];
                      allocCtx = RemoteAllocator Background remoteURL;
                      cancelAlloc = cancel allocCtx;
                      taskCtx = TaskContext allocCtx;
                      cancelTask = cancel taskCtx;
                      ctx = WithTimeout taskCtx (seconds timeout);
                      cancelCtx = cancel ctx
                  in (Inr \<lparr>Ctx = ctx,
                            Cancel = (\<lambda>t. cancelAlloc (cancelTask (cancelCtx t))),
                            TargetURL = target, Delay = delay, JSCode = jsCode\<rparr>,
                      tr3 @ [Slog LevelDebug ''Remote Chrome context created successfully'' []]))
     else
       let tr1 = tr @ [Slog LevelDebug ''Creating new headless Chrome instance'' []];
           allocCtx = TaskContext Background;
           cancelAlloc = cancel allocCtx;
           ctx = WithTimeout allocCtx (seconds timeout);
           cancelCtx = cancel ctx
       in (Inr \<lparr>Ctx = ctx,
                 Cancel = (\<lambda>t. cancelAlloc (cancelCtx t)),
                 TargetURL = target, Delay = delay, JSCode = jsCode\<rparr>,
           tr1 @ [Slog LevelDebug ''Chrome context created successfully'' []]))"

text \<open>
  The remote endpoint descriptor of the specification: exactly one colon, between two
  non-empty components.
\<close>

definition host_port_shape :: "string \<Rightarrow> bool" where
  "host_port_shape s \<longleftrightarrow>
     count_list s (CHR '':'') = 1
     \<and> takeWhile (\<lambda>c. c \<noteq> CHR '':'') s \<noteq> []
     \<and> tl (dropWhile (\<lambda>c. c \<noteq> CHR '':'') s) \<noteq> []"

text \<open>The two errors of the format checks, told by their format strings.\<close>

fun is_format_error :: "error \<Rightarrow> bool" where
  "is_format_error (Errorf format args) =
     (format = ''invalid remote debugging port format: %s (expected format: localhost:9222)''
      \<or> format = ''invalid remote debugging port format: %s (expected format: host:port)'')"
| "is_format_error (External msg) = False"

subsection \<open>Actions and their sequencing\<close>

text \<open>
  An action runs on a context against the environment. It may append to the trace and
  assign the variable of the enclosing function it captured (the type \<open>'v\<close>: the
  screenshot buffer, the slice of texts), and it returns an error or none.
  \<^verbatim>\<open>chromedp.Run\<close> runs its actions in order and stops at the first one that fails.
\<close>

type_synonym 'v action = "world \<Rightarrow> context \<Rightarrow> trace \<times> 'v \<Rightarrow> error option \<times> (trace \<times> 'v)"

fun Run :: "world \<Rightarrow> context \<Rightarrow> 'v action list \<Rightarrow> trace \<times> 'v \<Rightarrow> error option \<times> (trace \<times> 'v)" where
  "Run w ctx [] st = (None, st)"
| "Run w ctx (a # as) st =
     (case a w ctx st of
        (Some err, st') \<Rightarrow> (Some err, st')
      | (None, st') \<Rightarrow> Run w ctx as st')"

definition ActionFunc :: "(world \<Rightarrow> context \<Rightarrow> trace \<times> 'v \<Rightarrow> error option \<times> (trace \<times> 'v)) \<Rightarrow> 'v action" where
  "ActionFunc f = f"

definition Navigate :: "string \<Rightarrow> 'v action" where
  "Navigate url w ctx st =
     (case st of (tr, v) \<Rightarrow> (navigate w tr ctx url, (tr @ [Call ctx (PageNavigate url)], v)))"

definition Sleep :: "duration \<Rightarrow> 'v action" where
  "Sleep d w ctx st =
     (case st of (tr, v) \<Rightarrow> (sleep w tr ctx d, (tr @ [Call ctx (SleepFor d)], v)))"

text \<open>\<^verbatim>\<open>chromedp.Evaluate(expression, &texts)\<close> with a slice of strings as the target.\<close>

definition Evaluate :: "string \<Rightarrow> string list action" where
  "Evaluate expression w ctx st =
     (case st of (tr, texts) \<Rightarrow>
        (case evaluate_strings w tr ctx expression of
           Inl err \<Rightarrow> (Some err, (tr @ [Call ctx (EvaluateStrings expression)], texts))
         | Inr res \<Rightarrow> (None, (tr @ [Call ctx (EvaluateStrings expression)], res))))"

text \<open>\<^verbatim>\<open>chromedp.FullScreenshot(&buf, quality)\<close>\<close>

definition FullScreenshotAction :: "nat \<Rightarrow> bytes action" where
  "FullScreenshotAction quality w ctx st =
     (case st of (tr, buf) \<Rightarrow>
        (case full_screenshot w tr ctx quality of
           Inl err \<Rightarrow> (Some err, (tr @ [Call ctx (FullScreenshot quality)], buf))
         | Inr res \<Rightarrow> (None, (tr @ [Call ctx (FullScreenshot quality)], res))))"

subsection \<open>Script injection and the navigation pipeline\<close>

definition executeJSAction :: "Browser \<Rightarrow> unit action" where
  "executeJSAction b =
     (if JSCode b = [] then
        ActionFunc (\<lambda>w ctx st. (None, st))
      else
        let jsCode = JSCode b;
            hasAwait = Contains jsCode ''await'';
            jsCode = (if hasAwait then ''(async () => { '' @ jsCode @ '' })();'' else jsCode)
        in ActionFunc (\<lambda>w ctx st.
             case st of (tr0, u) \<Rightarrow>
               let tr = tr0 @ [Slog LevelDebug ''Executing custom JavaScript''
                                 [(''codeLength'', I (of_nat (length (JSCode b)))), (''hasAwait'', B hasAwait)]]
               in
               if hasAwait then
                 (case runtime_evaluate w tr ctx jsCode True of
                    Inl err \<Rightarrow>
                      (Some (Errorf ''failed to execute custom JavaScript: %w'' [E err]),
                       (tr @ [Call ctx (RuntimeEvaluate jsCode True),
                              Slog LevelError ''Failed to execute custom JavaScript'' [(''error'', E err)]], u))
                  | Inr (Some exceptionText) \<Rightarrow>
                      (Some (Errorf ''JavaScript exception: %s'' [S exceptionText]),
                       (tr @ [Call ctx (RuntimeEvaluate jsCode True),
                              Slog LevelError ''JavaScript exception during execution'' [(''exception'', S exceptionText)]], u))
                  | Inr None \<Rightarrow>
                      (None,
                       (tr @ [Call ctx (RuntimeEvaluate jsCode True),
                              Slog LevelDebug ''Custom JavaScript executed successfully'' []], u)))
               else
                 (case evaluate_value w tr ctx jsCode of
                    Some err \<Rightarrow>
                      (Some (Errorf ''failed to execute custom JavaScript: %w'' [E err]),
                       (tr @ [Call ctx (EvaluateValue jsCode),
                              Slog LevelError ''Failed to execute custom JavaScript'' [(''error'', E err)]], u))
                  | None \<Rightarrow>
                      (None,
                       (tr @ [Call ctx (EvaluateValue jsCode),
                              Slog LevelDebug ''Custom JavaScript executed successfully'' []], u)))))"

definition NavigateAndPrepare :: "world \<Rightarrow> Browser \<Rightarrow> trace \<Rightarrow> error option \<times> trace" where
  "NavigateAndPrepare w b tr0 =
     (let tr = tr0 @ [Slog LevelDebug ''Navigating to target URL'' [(''url'', S (TargetURL b))]]
      in case Run w (Ctx b)
                [Navigate (TargetURL b),
                 ActionFunc (\<lambda>w ctx st. case st of (t, u) \<Rightarrow>
                    (None, (t @ [Slog LevelDebug ''Applying rendering delay''
                                   [(''delay'', I (Delay b)), (''url'', S (TargetURL b))]], u))),
                 Sleep (seconds (Delay b)),
                 executeJSAction b]
                (tr, ()) of
           (Some err, (tr1, u)) \<Rightarrow>
             (Some err, tr1 @ [Slog LevelError ''Failed to navigate and prepare page''
                                 [(''url'', S (TargetURL b)), (''error'', E err)]])
         | (None, (tr1, u)) \<Rightarrow>
             (None, tr1 @ [Slog LevelDebug ''Navigation and preparation completed successfully'' []]))"

subsection \<open>The event bridge\<close>

record CallFrame =
  FunctionName :: string
  URL :: string
  LineNumber :: goint
  ColumnNumber :: goint

text \<open>
  The events the listener distinguishes. A console event carries its method type and
  the JSON text of the value of each argument; an exception event its text and, when
  present, the frames of its stack trace.
\<close>

datatype browser_event =
    EventConsoleAPICalled string "string list"
  | EventExceptionThrown string "CallFrame list option"
  | EventJavascriptDialogOpening
  | EventOther

text \<open>The loop over the arguments of a console event, with \<open>values\<close> as it grows.\<close>

fun collectValues :: "string list \<Rightarrow> string list \<Rightarrow> string list" where
  "collectValues [] values = values"
| "collectValues (arg # args) values =
     (let val = arg;
          val = (if 2 \<le> length val \<and> val ! 0 = CHR 0x22 \<and> val ! (length val - 1) = CHR 0x22
                 then drop 1 (take (length val - 1) val) else val)
      in collectValues args (values @ [val]))"

text \<open>The function registered with \<^verbatim>\<open>chromedp.ListenTarget\<close>, run on each event delivered.\<close>

definition listener :: "Browser \<Rightarrow> browser_event \<Rightarrow> trace \<Rightarrow> trace" where
  "listener b ev tr =
     (case ev of
        EventConsoleAPICalled type args \<Rightarrow>
          tr @ [Slog LevelInfo ''Console message captured''
                  [(''type'', S type), (''value'', S (Join (collectValues args []) '' ''))]]
      | EventExceptionThrown text stackTrace \<Rightarrow>
          tr @ [Slog LevelError ''JavaScript exception captured'' [(''text'', S text)]]
             @ (case stackTrace of
                  None \<Rightarrow> []
                | Some callFrames \<Rightarrow>
                    map (\<lambda>frame. Slog LevelDebug ''Stack trace frame''
                           [(''function'', S (FunctionName frame)), (''url'', S (URL frame)),
                            (''line'', I (LineNumber frame)), (''column'', I (ColumnNumber frame))])
                        callFrames)
      | EventJavascriptDialogOpening \<Rightarrow>
          tr @ [Slog LevelDebug ''JavaScript dialog detected, handling automatically'' [],
                Spawn (Ctx b) (HandleJavaScriptDialog True)]
      | EventOther \<Rightarrow> tr)"

definition SetupConsoleLogListeners :: "Browser \<Rightarrow> trace \<Rightarrow> trace" where
  "SetupConsoleLogListeners b tr =
     tr @ [Slog LevelDebug ''Setting up console log listeners'' [],
           ListenTarget (Ctx b),
           Slog LevelDebug ''Console log listeners set up successfully'' []]"

definition CaptureConsoleLogs :: "Browser \<Rightarrow> trace \<Rightarrow> error option \<times> trace" where
  "CaptureConsoleLogs b tr = (None, SetupConsoleLogListeners b tr)"

text \<open>The quotes of a JSON string removed, as the specification words it.\<close>

definition strip_quotes :: "string \<Rightarrow> string" where
  "strip_quotes v =
     (if 2 \<le> length v \<and> hd v = CHR 0x22 \<and> last v = CHR 0x22 then butlast (tl v) else v)"

subsection \<open>Action executors\<close>

text \<open>The two raw string literals around the selector in \<^verbatim>\<open>GetTextBySelector\<close>.\<close>

definition selectorPrefix :: string where
  "selectorPrefix = [CHR 0x0A, CHR 0x09, CHR 0x09, CHR 0x09] @ ''Array.from(document.querySelectorAll('' @ [CHR 0x27]"

definition selectorSuffix :: string where
  "selectorSuffix = [CHR 0x27] @ '')).map(el => el.innerText.trim()).filter(text => text.length > 0)''
      @ [CHR 0x0A, CHR 0x09, CHR 0x09]"

text \<open>The loop that joins the texts, with the index \<open>i\<close> and \<open>result\<close> as it grows.\<close>

fun joinTexts :: "nat \<Rightarrow> string list \<Rightarrow> string \<Rightarrow> string" where
  "joinTexts i [] result = result"
| "joinTexts i (text # texts) result =
     joinTexts (i + 1) texts ((if 0 < i then result @ [CHR 0x0A] else result) @ text)"

definition GetTextBySelector :: "world \<Rightarrow> Browser \<Rightarrow> string \<Rightarrow> trace \<Rightarrow> (error + string) \<times> trace" where
  "GetTextBySelector w b selector tr0 =
     (let tr = tr0 @ [Slog LevelDebug ''Extracting text by CSS selector'' [(''selector'', S selector)]]
      in case Run w (Ctx b) [Evaluate (selectorPrefix @ selector @ selectorSuffix)] (tr, []) of
           (Some err, (tr1, texts)) \<Rightarrow>
             (Inl err, tr1 @ [Slog LevelError ''Failed to extract text by selector''
                                [(''selector'', S selector), (''error'', E err)]])
         | (None, (tr1, texts)) \<Rightarrow>
             let result = joinTexts 0 texts []
             in (Inr result,
                 tr1 @ [Slog LevelDebug ''Successfully extracted text''
                          [(''selector'', S selector),
                           (''elementsFound'', I (of_nat (length texts))),
                           (''totalTextLength'', I (of_nat (length result)))]]))"

definition GetBodyText :: "world \<Rightarrow> Browser \<Rightarrow> trace \<Rightarrow> (error + string) \<times> trace" where
  "GetBodyText w b tr = GetTextBySelector w b ''body'' tr"

definition TakeScreenshot :: "world \<Rightarrow> Browser \<Rightarrow> trace \<Rightarrow> (error + bytes) \<times> trace" where
  "TakeScreenshot w b tr0 =
     (let tr = tr0 @ [Slog LevelDebug ''Taking screenshot'' []]
      in case Run w (Ctx b) [FullScreenshotAction 90] (tr, []) of
           (Some err, (tr1, buf)) \<Rightarrow>
             (Inl err, tr1 @ [Slog LevelError ''Failed to capture screenshot'' [(''error'', E err)]])
         | (None, (tr1, buf)) \<Rightarrow>
             (Inr buf, tr1 @ [Slog LevelDebug ''Screenshot captured successfully''
                                [(''size'', I (of_nat (length buf)))]]))"

definition PrintToPDF :: "world \<Rightarrow> Browser \<Rightarrow> trace \<Rightarrow> (error + bytes) \<times> trace" where
  "PrintToPDF w b tr0 =
     (let tr = tr0 @ [Slog LevelDebug ''Generating PDF'' []]
      in case Run w (Ctx b)
                [ActionFunc (\<lambda>w ctx st. case st of (t, pdfBuf) \<Rightarrow>
                   (case print_to_pdf w t ctx True of
                      Inl err \<Rightarrow> (Some err, (t @ [Call ctx (PagePrintToPDF True)], []))
                    | Inr res \<Rightarrow> (None, (t @ [Call ctx (PagePrintToPDF True)], res))))]
                (tr, []) of
           (Some err, (tr1, pdfBuf)) \<Rightarrow>
             (Inl err, tr1 @ [Slog LevelError ''Failed to generate PDF'' [(''error'', E err)]])
         | (None, (tr1, pdfBuf)) \<Rightarrow>
             (Inr pdfBuf, tr1 @ [Slog LevelDebug ''PDF generated successfully''
                                   [(''size'', I (of_nat (length pdfBuf)))]]))"

subsection \<open>The page as the selector expression sees it\<close>

text \<open>
  The expression between the two literals is JavaScript, evaluated by the browser:
  \<^verbatim>\<open>Array.from(document.querySelectorAll(sel)).map(el => el.innerText.trim()).filter(text => text.length > 0)\<close>.
  A document answers a selector with the matching elements in document order, or with
  an error for a selector it cannot parse; \<open>stringTrim\<close> is the \<^verbatim>\<open>trim\<close> of JavaScript
  strings.
\<close>

record element =
  innerText :: string
  textContent :: string

record document =
  querySelectorAll :: "string \<Rightarrow> error + element list"
  stringTrim :: "string \<Rightarrow> string"

definition selectorExpression :: "document \<Rightarrow> string \<Rightarrow> error + string list" where
  "selectorExpression doc sel =
     (case querySelectorAll doc sel of
        Inl err \<Rightarrow> Inl err
      | Inr els \<Rightarrow> Inr (filter (\<lambda>text. 0 < length text) (map (\<lambda>el. stringTrim doc (innerText el)) els)))"

text \<open>The address the probe and the allocator use: the endpoint, with a scheme put in
  front unless it has one.\<close>

definition remoteURL_of :: "string \<Rightarrow> string" where
  "remoteURL_of remoteDebuggingPort =
     (if \<not> HasPrefix remoteDebuggingPort ''http://'' \<and> \<not> HasPrefix remoteDebuggingPort ''https://''
      then ''http://'' @ remoteDebuggingPort else remoteDebuggingPort)"

text \<open>An environment in which every request succeeds, for concrete runs.\<close>

definition quiet_world :: world where
  "quiet_world = \<lparr>http_get = (\<lambda>tr url. Inr (200, None)),
     navigate = (\<lambda>tr ctx url. None),
     sleep = (\<lambda>tr ctx d. None),
     runtime_evaluate = (\<lambda>tr ctx js await. Inr None),
     evaluate_value = (\<lambda>tr ctx js. None),
     evaluate_strings = (\<lambda>tr ctx js. Inr []),
     full_screenshot = (\<lambda>tr ctx q. Inr []),
     print_to_pdf = (\<lambda>tr ctx bg. Inr [])\<rparr>"

text \<open>
  The requests of the pipeline in the order the code lists its actions: the navigation,
  the sleep, and the request of the injection action (none without a script).
\<close>

definition injectionRequests :: "Browser \<Rightarrow> request list" where
  "injectionRequests b =
     (if JSCode b = [] then []
      else if Contains (JSCode b) ''await''
      then [RuntimeEvaluate (''(async () => { '' @ JSCode b @ '' })();'') True]
      else [EvaluateValue (JSCode b)])"

definition pipelineCalls :: "Browser \<Rightarrow> event list" where
  "pipelineCalls b =
     map (Call (Ctx b)) ([PageNavigate (TargetURL b), SleepFor (seconds (Delay b))] @ injectionRequests b)"

text \<open>Sessions for concrete runs: a local one as \<^verbatim>\<open>InitializeChromedp\<close> returns it for the
  default timeout adjusted to 12, with a delay of 2 seconds, and one with a delay of
  9223372037 seconds.\<close>

definition local_browser :: "goint \<Rightarrow> string \<Rightarrow> Browser" where
  "local_browser delay jsCode =
     \<lparr>Ctx = WithTimeout (TaskContext Background) (seconds 12),
      Cancel = (\<lambda>t. cancel (TaskContext Background) (cancel (WithTimeout (TaskContext Background) (seconds 12)) t)),
      TargetURL = ''https://example.com'', Delay = delay, JSCode = jsCode\<rparr>"

text \<open>A page with three headings, one of them blank; \<open>trimSpaces\<close> removes the spaces
  at both ends of a string.\<close>

definition trimSpaces :: "string \<Rightarrow> string" where
  "trimSpaces s = rev (dropWhile (\<lambda>c. c = CHR '' '') (rev (dropWhile (\<lambda>c. c = CHR '' '') s)))"

definition headings_page :: document where
  "headings_page = \<lparr>querySelectorAll = (\<lambda>sel. if sel = ''h1''
        then Inr [\<lparr>innerText = '' Title '', textContent = '' Title ''\<rparr>,
                  \<lparr>innerText = ''  '', textContent = ''  ''\<rparr>,
                  \<lparr>innerText = ''Sub'', textContent = ''Sub''\<rparr>]
        else Inr []),
      stringTrim = trimSpaces\<rparr>"

subsection \<open>The browser's reading of the expression\<close>

text \<open>
  How a JavaScript engine reads a string literal in single quotes, from the character
  after the opening quote: the value of the string and the text after the closing
  quote. A quote closes the string; a line feed or a carriage return, or the end of the
  text, before the closing quote is a syntax error; a backslash starts an escape
  sequence. The escapes \<^verbatim>\<open>\'\<close>, \<^verbatim>\<open>\"\<close>, \<^verbatim>\<open>\\\<close>, \<^verbatim>\<open>\b\<close>, \<^verbatim>\<open>\f\<close>, \<^verbatim>\<open>\n\<close>, \<^verbatim>\<open>\r\<close>, \<^verbatim>\<open>\t\<close>,
  \<^verbatim>\<open>\v\<close>, the line continuation (backslash, line feed) and the backslash before any other
  ASCII character that is not a digit, \<^verbatim>\<open>x\<close> or \<^verbatim>\<open>u\<close> are read as the language defines them.
  The numeric escapes (\<^verbatim>\<open>\x\<close>, \<^verbatim>\<open>\u\<close>, a digit), the backslash before a carriage return and
  before a byte outside ASCII are left out: there the result is \<open>NotModelled\<close>.
\<close>

datatype lexed = Literal string string | Unterminated | NotModelled

fun lex_cons :: "string \<Rightarrow> lexed \<Rightarrow> lexed" where
  "lex_cons u (Literal v rest) = Literal (u @ v) rest"
| "lex_cons u Unterminated = Unterminated"
| "lex_cons u NotModelled = NotModelled"

definition escape_not_modelled :: "char \<Rightarrow> bool" where
  "escape_not_modelled e \<longleftrightarrow> e \<in> set ''xu0123456789'' \<or> e = CHR 0x0D \<or> digit7 e"

definition escape_value :: "char \<Rightarrow> string" where
  "escape_value e =
     (if e = CHR 0x0A then []
      else if e = CHR ''b'' then [CHR 0x08]
      else if e = CHR ''f'' then [CHR 0x0C]
      else if e = CHR ''n'' then [CHR 0x0A]
      else if e = CHR ''r'' then [CHR 0x0D]
      else if e = CHR ''t'' then [CHR 0x09]
      else if e = CHR ''v'' then [CHR 0x0B]
      else [e])"

fun js_single_quoted :: "string \<Rightarrow> lexed" where
  "js_single_quoted [] = Unterminated"
| "js_single_quoted [c] = (if c = CHR 0x27 then Literal [] [] else Unterminated)"
| "js_single_quoted (c # e # rest) =
     (if c = CHR 0x27 then Literal [] (e # rest)
      else if c = CHR 0x0A \<or> c = CHR 0x0D then Unterminated
      else if c = CHR 0x5C then
        (if escape_not_modelled e then NotModelled
         else lex_cons (escape_value e) (js_single_quoted rest))
      else lex_cons [c] (js_single_quoted (e # rest)))"

text \<open>A text in which no character ends the string or starts an escape.\<close>

definition plain_text :: "string \<Rightarrow> bool" where
  "plain_text s \<longleftrightarrow> filter (\<lambda>c. c \<in> set [CHR 0x27, CHR 0x5C, CHR 0x0A, CHR 0x0D]) s = []"

definition identifier_start :: "char \<Rightarrow> bool" where
  "identifier_start c \<longleftrightarrow> c \<in> set ''abcdefghijklmnopqrstuvwxyzABCDEFGHIJKLMNOPQRSTUVWXYZ$_''"

definition identifier_part :: "char \<Rightarrow> bool" where
  "identifier_part c \<longleftrightarrow> identifier_start c \<or> c \<in> set ''0123456789''"

text \<open>
  A browser that shows a given page, on the expressions \<^verbatim>\<open>GetTextBySelector\<close> sends: the
  first literal and then some text. It reads the string the first literal opens.
  \<^item> When the string is not terminated, the expression is a syntax error.
  \<^item> When the string is followed by the rest of the second literal, the expression is
    the selector query with the value of the string as the selector.
  \<^item> When the string is followed directly by an identifier other than the operators
    \<^verbatim>\<open>in\<close> and \<^verbatim>\<open>instanceof\<close>, the expression is a syntax error.
  \<^item> On every other text (also any text with a byte outside ASCII) the model says
    nothing of its own: the answer is that of \<open>other\<close>, a parameter.
\<close>

definition script_engine :: "document \<Rightarrow> (string \<Rightarrow> error + string list) \<Rightarrow> string \<Rightarrow> error + string list" where
  "script_engine doc other js =
     (if list_ex digit7 js \<or> take (length selectorPrefix) js \<noteq> selectorPrefix then other js
      else case js_single_quoted (drop (length selectorPrefix) js) of
             Unterminated \<Rightarrow> Inl (External ''SyntaxError'')
           | NotModelled \<Rightarrow> other js
           | Literal v rest \<Rightarrow>
               if rest = tl selectorSuffix then selectorExpression doc v
               else if rest \<noteq> [] \<and> identifier_start (hd rest)
                       \<and> takeWhile identifier_part rest \<noteq> ''in''
                       \<and> takeWhile identifier_part rest \<noteq> ''instanceof''
               then Inl (External ''SyntaxError'')
               else other js)"

definition page_world :: "document \<Rightarrow> (string \<Rightarrow> error + string list) \<Rightarrow> world" where
  "page_world doc other = quiet_world\<lparr>evaluate_strings := (\<lambda>tr ctx js. script_engine doc other js)\<rparr>"


text \<open>A selector with a quoted attribute value, \<^verbatim>\<open>a[title='x']\<close>, the same with a backslash
  before each quote, \<^verbatim>\<open>a[title=\'x\']\<close>, and a page with one link of that title.\<close>

definition quoted_selector :: string where
  "quoted_selector = ''a[title='' @ [CHR 0x27] @ ''x'' @ [CHR 0x27] @ '']''"


definition link_page :: document where
  "link_page = \<lparr>querySelectorAll = (\<lambda>sel. if sel = quoted_selector
        then Inr [\<lparr>innerText = ''Link'', textContent = ''Link''\<rparr>]
        else Inr []),
      stringTrim = trimSpaces\<rparr>"

section \<open>The earlier revision of the package\<close>

text \<open>
  The file of the package holds a second document after a separator line: an earlier
  revision, in which there is no \<^verbatim>\<open>NavigateAndPrepare\<close>, no delay and no script, every
  executor loads the target itself, and \<^verbatim>\<open>CaptureConsoleLogs\<close> registers the listener and
  then navigates. The first document supersedes it (its comment on \<^verbatim>\<open>CaptureConsoleLogs\<close>
  says the function now only calls \<^verbatim>\<open>SetupConsoleLogListeners\<close>) and is the program the
  properties below are about. The functions of the earlier revision that differ are
  modelled here, on the same session record, to state the difference.
\<close>

definition selectorSuffix_earlier :: string where
  "selectorSuffix_earlier = [CHR 0x27] @ '')).map(el => el.textContent.trim()).filter(text => text.length > 0)''
      @ [CHR 0x0A, CHR 0x09, CHR 0x09]"

definition GetTextBySelector_earlier :: "world \<Rightarrow> Browser \<Rightarrow> string \<Rightarrow> trace \<Rightarrow> (error + string) \<times> trace" where
  "GetTextBySelector_earlier w b selector tr0 =
     (let tr = tr0 @ [Slog LevelDebug ''Extracting text by CSS selector''
                        [(''selector'', S selector), (''url'', S (TargetURL b))]]
      in case Run w (Ctx b)
                [Navigate (TargetURL b),
                 Evaluate (selectorPrefix @ selector @ selectorSuffix_earlier)] (tr, []) of
           (Some err, (tr1, texts)) \<Rightarrow>
             (Inl err, tr1 @ [Slog LevelError ''Failed to extract text by selector''
                                [(''selector'', S selector), (''error'', E err)]])
         | (None, (tr1, texts)) \<Rightarrow>
             let result = joinTexts 0 texts []
             in (Inr result,
                 tr1 @ [Slog LevelDebug ''Successfully extracted text''
                          [(''selector'', S selector),
                           (''elementsFound'', I (of_nat (length texts))),
                           (''totalTextLength'', I (of_nat (length result)))]]))"

definition TakeScreenshot_earlier :: "world \<Rightarrow> Browser \<Rightarrow> trace \<Rightarrow> (error + bytes) \<times> trace" where
  "TakeScreenshot_earlier w b tr0 =
     (let tr = tr0 @ [Slog LevelDebug ''Taking screenshot'' [(''url'', S (TargetURL b))]]
      in case Run w (Ctx b) [Navigate (TargetURL b), FullScreenshotAction 90] (tr, []) of
           (Some err, (tr1, buf)) \<Rightarrow>
             (Inl err, tr1 @ [Slog LevelError ''Failed to capture screenshot''
                                [(''url'', S (TargetURL b)), (''error'', E err)]])
         | (None, (tr1, buf)) \<Rightarrow>
             (Inr buf, tr1 @ [Slog LevelDebug ''Screenshot captured successfully''
                                [(''size'', I (of_nat (length buf)))]]))"

definition PrintToPDF_earlier :: "world \<Rightarrow> Browser \<Rightarrow> trace \<Rightarrow> (error + bytes) \<times> trace" where
  "PrintToPDF_earlier w b tr0 =
     (let tr = tr0 @ [Slog LevelDebug ''Generating PDF'' [(''url'', S (TargetURL b))]]
      in case Run w (Ctx b)
                [Navigate (TargetURL b),
                 ActionFunc (\<lambda>w ctx st. case st of (t, pdfBuf) \<Rightarrow>
                   (case print_to_pdf w t ctx True of
                      Inl err \<Rightarrow> (Some err, (t @ [Call ctx (PagePrintToPDF True)], []))
                    | Inr res \<Rightarrow> (None, (t @ [Call ctx (PagePrintToPDF True)], res))))]
                (tr, []) of
           (Some err, (tr1, pdfBuf)) \<Rightarrow>
             (Inl err, tr1 @ [Slog LevelError ''Failed to generate PDF''
                                [(''url'', S (TargetURL b)), (''error'', E err)]])
         | (None, (tr1, pdfBuf)) \<Rightarrow>
             (Inr pdfBuf, tr1 @ [Slog LevelDebug ''PDF generated successfully''
                                   [(''size'', I (of_nat (length pdfBuf)))]]))"

text \<open>The console case of the earlier listener: one entry for each argument, with the
  value as it came.\<close>

definition listener_console_earlier :: "string \<Rightarrow> string list \<Rightarrow> trace \<Rightarrow> trace" where
  "listener_console_earlier type args tr =
     tr @ map (\<lambda>arg. Slog LevelInfo ''Console message captured'' [(''type'', S type), (''value'', S arg)]) args"

definition CaptureConsoleLogs_earlier :: "world \<Rightarrow> Browser \<Rightarrow> trace \<Rightarrow> error option \<times> trace" where
  "CaptureConsoleLogs_earlier w b tr0 =
     (let tr = tr0 @ [Slog LevelDebug ''Setting up console log listeners'' [],
                      ListenTarget (Ctx b),
                      Slog LevelDebug ''Navigating to target URL for console log capture''
                        [(''url'', S (TargetURL b))]]
      in case Run w (Ctx b) [Navigate (TargetURL b)] (tr, ()) of
           (Some err, (tr1, u)) \<Rightarrow>
             (Some err, tr1 @ [Slog LevelError ''Failed to navigate to target URL''
                                 [(''url'', S (TargetURL b)), (''error'', E err)]])
         | (None, (tr1, u)) \<Rightarrow>
             (None, tr1 @ [Slog LevelDebug ''Console log capture completed'' []]))"

section \<open>Facts about the library functions\<close>

lemma HasPrefix_iff: "HasPrefix s p \<longleftrightarrow> (\<exists>r. s = p @ r)"
  by (induction s p rule: HasPrefix.induct) auto

lemma Contains_iff: "Contains s sub \<longleftrightarrow> (\<exists>xs ys. s = xs @ sub @ ys)"
proof (induction s)
  case Nil
  then show ?case by auto
next
  case (Cons c cs)
  show ?case
  proof
    assume "Contains (c # cs) sub"
    then consider "HasPrefix (c # cs) sub" | "Contains cs sub" by auto
    then show "\<exists>xs ys. c # cs = xs @ sub @ ys"
    proof cases
      case 1
      then obtain r where "c # cs = sub @ r" by (auto simp: HasPrefix_iff)
      then have "c # cs = [] @ sub @ r" by simp
      then show ?thesis by blast
    next
      case 2
      then obtain xs ys where "cs = xs @ sub @ ys" using Cons.IH by auto
      then have "c # cs = (c # xs) @ sub @ ys" by simp
      then show ?thesis by blast
    qed
  next
    assume "\<exists>xs ys. c # cs = xs @ sub @ ys"
    then obtain xs ys where eq: "c # cs = xs @ sub @ ys" by auto
    show "Contains (c # cs) sub"
    proof (cases xs)
      case Nil
      then have "HasPrefix (c # cs) sub" using eq by (auto simp: HasPrefix_iff)
      then show ?thesis by simp
    next
      case (Cons x xs')
      then have "cs = xs' @ sub @ ys" using eq by simp
      then have "Contains cs sub" using Cons.IH by blast
      then show ?thesis by simp
    qed
  qed
qed

lemma Contains_char: "Contains s [c] \<longleftrightarrow> c \<in> set s"
  by (induction s) auto

lemma Split_not_Nil: "Split s sep \<noteq> []"
  by (induction s) (auto split: list.splits)

lemma length_Split: "length (Split s sep) = count_list s sep + 1"
  by (induction s) (auto split: list.splits simp: Split_not_Nil)

lemma Split_no_sep: "sep \<notin> set s \<Longrightarrow> Split s sep = [s]"
  by (induction s) auto

lemma Split_append_sep:
  "sep \<notin> set h \<Longrightarrow> Split (h @ sep # p) sep = h # Split p sep"
  by (induction h) auto

lemma split_at_first:
  assumes "c \<in> set s"
  shows "s = takeWhile (\<lambda>x. x \<noteq> c) s @ c # tl (dropWhile (\<lambda>x. x \<noteq> c) s)"
proof -
  have "dropWhile (\<lambda>x. x \<noteq> c) s \<noteq> []" using assms by simp
  moreover have "hd (dropWhile (\<lambda>x. x \<noteq> c) s) = c"
    using assms hd_dropWhile [of "\<lambda>x. x \<noteq> c" s] by auto
  ultimately have "dropWhile (\<lambda>x. x \<noteq> c) s = c # tl (dropWhile (\<lambda>x. x \<noteq> c) s)"
    by (cases "dropWhile (\<lambda>x. x \<noteq> c) s") auto
  then show ?thesis
    using takeWhile_dropWhile_id [of "\<lambda>x. x \<noteq> c" s] by metis
qed

lemma count_list_0_iff: "count_list s c = 0 \<longleftrightarrow> c \<notin> set s"
  by (induction s) auto

lemma validation_iff:
  "(Contains s '':'' \<and> \<not> (length (Split s (CHR '':'')) \<noteq> 2 \<or> Split s (CHR '':'') ! 0 = []
       \<or> Split s (CHR '':'') ! 1 = []))
   \<longleftrightarrow> host_port_shape s"
proof (cases "CHR '':'' \<in> set s")
  case False
  then have "count_list s (CHR '':'') = 0" by (simp add: count_list_0_iff)
  then show ?thesis using False by (simp add: Contains_char host_port_shape_def)
next
  case True
  define h where "h = takeWhile (\<lambda>x. x \<noteq> CHR '':'') s"
  define p where "p = tl (dropWhile (\<lambda>x. x \<noteq> CHR '':'') s)"
  have s: "s = h @ CHR '':'' # p" unfolding h_def p_def by (rule split_at_first [OF True])
  have h: "CHR '':'' \<notin> set h" unfolding h_def by (auto dest: set_takeWhileD)
  have sp: "Split s (CHR '':'') = h # Split p (CHR '':'')"
    using Split_append_sep [OF h, of p] s by simp
  have cnt: "count_list s (CHR '':'') = 1 + count_list p (CHR '':'')"
  proof -
    have "count_list h (CHR '':'') = 0" using h by (simp add: count_list_0_iff)
    then have "count_list (h @ CHR '':'' # p) (CHR '':'') = 1 + count_list p (CHR '':'')" by simp
    then show ?thesis using s by simp
  qed
  show ?thesis
  proof (cases "CHR '':'' \<in> set p")
    case False
    then have "Split p (CHR '':'') = [p]" by (rule Split_no_sep)
    moreover have "count_list p (CHR '':'') = 0" using False by (simp add: count_list_0_iff)
    ultimately show ?thesis
      using True sp cnt by (simp add: Contains_char host_port_shape_def h_def [symmetric] p_def [symmetric])
  next
    case inp: True
    then have "count_list p (CHR '':'') \<noteq> 0" by (simp add: count_list_0_iff)
    then have "length (Split s (CHR '':'')) \<noteq> 2" "count_list s (CHR '':'') \<noteq> 1"
      using cnt by (simp_all add: length_Split)
    then show ?thesis by (simp add: host_port_shape_def)
  qed
qed

section \<open>Timeout adjustment\<close>

lemma sint_plus_10:
  fixes d :: goint
  assumes "0 \<le> sint d" and "sint d \<le> 9223372036854775797"
  shows "sint (d + 10) = sint d + 10"
proof -
  have "sint (d + 10) = signed_take_bit 63 (sint d + 10)"
    by (simp add: sint_word_ariths)
  also have "\<dots> = sint d + 10"
    using assms by (intro signed_take_bit_int_eq_self) simp_all
  finally show ?thesis .
qed

lemma config_nonneg:
  assumes "0 \<le> sint (Config.Delay cfg)"
  shows "runThatCliWebBrowser_config cfg tr =
    (let adj = Timeout cfg \<le>s Config.Delay cfg + 10;
         cfg2 = (if adj then cfg\<lparr>Timeout := Config.Delay cfg + 10\<rparr> else cfg);
         tr2 = tr @ (if 60 <s Config.Delay cfg
                     then [Slog LevelWarn ''Large delay value specified'' [(''delay'', I (Config.Delay cfg))]]
                     else [])
                  @ (if adj then [adjustment_entry cfg] else [])
     in if no_action cfg then
          (Inl (Errorf ''at least one action must be specified (--body, --screenshot, --printtopdf, --consolelog, or --gettextbycssselector)'' []),
              tr2 @ [Slog LevelError ''No action specified'' []])
        else (Inr cfg2, tr2))"
proof -
  have "\<not> Config.Delay cfg <s 0" using assms by (simp add: word_sless_alt)
  then show ?thesis
    by (simp add: runThatCliWebBrowser_config_def Let_def no_action_def adjustment_entry_def)
qed

text \<open>
  Claim C1, as amended. For every configured delay with \<open>0 \<le> delay\<close> and
  \<open>delay + 10\<close> representable in Go's \<^verbatim>\<open>int\<close> (\<open>delay \<le> 2\<^sup>6\<^sup>3 - 11\<close>), and every
  configured timeout: if \<open>timeout \<le> delay + 10\<close> (the boundary included) the timeout
  handed to session establishment is \<open>delay + 10\<close>, otherwise it is the configured
  timeout; nothing else of the configuration changes. The adjustment is written as one
  log entry of level Info, and no entry of that level is written without it. The
  adjustment is not an error: the command fails here exactly when no action was
  requested.
\<close>

theorem timeout_adjustment:
  assumes "0 \<le> sint (Config.Delay cfg)" and "sint (Config.Delay cfg) \<le> 9223372036854775797"
  shows "(case runThatCliWebBrowser_config cfg tr of
           (Inl e, tr') \<Rightarrow> no_action cfg
         | (Inr cfg', tr') \<Rightarrow> \<not> no_action cfg
             \<and> sint (Timeout cfg') =
                 (if sint (Timeout cfg) \<le> sint (Config.Delay cfg) + 10 then sint (Config.Delay cfg) + 10
                  else sint (Timeout cfg))
             \<and> cfg' = cfg\<lparr>Timeout := Timeout cfg'\<rparr>)
       \<and> filter is_info (snd (runThatCliWebBrowser_config cfg tr)) =
           filter is_info tr @
             (if sint (Timeout cfg) \<le> sint (Config.Delay cfg) + 10 then [adjustment_entry cfg] else [])"
proof -
  have adj: "Timeout cfg \<le>s Config.Delay cfg + 10
      \<longleftrightarrow> sint (Timeout cfg) \<le> sint (Config.Delay cfg) + 10"
    using sint_plus_10 [OF assms] by (simp add: word_sle_eq)
  show ?thesis
    unfolding config_nonneg [OF assms(1)] Let_def adj
    using sint_plus_10 [OF assms]
    by (simp add: adjustment_entry_def)
qed

text \<open>The run with a delay of 15 and the default timeout of 10: the timeout becomes 25
  and the adjustment is the only entry logged.\<close>

theorem timeout_adjustment_witness:
  "0 \<le> sint (Config.Delay delay15_cfg) \<and> sint (Config.Delay delay15_cfg) \<le> 9223372036854775797
   \<and> fst (runThatCliWebBrowser_config delay15_cfg []) = Inr (delay15_cfg\<lparr>Timeout := 25\<rparr>)
   \<and> snd (runThatCliWebBrowser_config delay15_cfg []) = [adjustment_entry delay15_cfg]"
  using timeout_adjustment [of delay15_cfg "[]"]
  by (simp add: runThatCliWebBrowser_config_def delay15_cfg_def no_action_def adjustment_entry_def
        word_sless_alt word_sle_eq)

text \<open>
  Claim C1 as stated fails where \<open>delay + 10\<close> leaves the range of \<^verbatim>\<open>int\<close>. With
  \<^verbatim>\<open>--delay 9223372036854775807\<close> and the default timeout the delay is not negative and
  \<open>10 \<le> delay + 10\<close>, but the sum wraps to a negative number, the comparison of the
  code is false, the timeout stays 10 and only the warning about a large delay is logged.
\<close>

theorem timeout_adjustment_counterexample:
  "0 \<le> sint (Config.Delay maxdelay_cfg)
   \<and> sint (Timeout maxdelay_cfg) \<le> sint (Config.Delay maxdelay_cfg) + 10
   \<and> fst (runThatCliWebBrowser_config maxdelay_cfg []) = Inr maxdelay_cfg
   \<and> sint (Timeout maxdelay_cfg) \<noteq> sint (Config.Delay maxdelay_cfg) + 10
   \<and> snd (runThatCliWebBrowser_config maxdelay_cfg []) =
        [Slog LevelWarn ''Large delay value specified'' [(''delay'', I (Config.Delay maxdelay_cfg))]]"
  by (simp add: runThatCliWebBrowser_config_def maxdelay_cfg_def word_sless_alt word_sle_eq)

section \<open>Session establishment\<close>

lemma Initialize_rejects:
  assumes "port \<noteq> []" and "\<not> host_port_shape port"
  shows "\<exists>e. InitializeChromedp w target timeout delay port jsCode tr =
           (Inl e, tr @ [Slog LevelDebug ''Initializing Chrome browser''
                      [(''target'', S target), (''timeout'', I timeout), (''delay'', I delay),
                       (''remotePort'', S port), (''hasJSCode'', B (jsCode \<noteq> []))]])
         \<and> is_format_error e"
proof (cases "Contains port '':''")
  case False
  then show ?thesis using assms(1)
    by (simp add: InitializeChromedp_def Let_def)
next
  case True
  then have "length (Split port (CHR '':'')) \<noteq> 2 \<or> Split port (CHR '':'') ! 0 = []
       \<or> Split port (CHR '':'') ! 1 = []"
    using assms(2) validation_iff [of port] by blast
  then show ?thesis using assms(1) True
    by (simp add: InitializeChromedp_def Let_def)
qed

lemma Initialize_probes:
  assumes "port \<noteq> []" and "host_port_shape port"
  shows "\<exists>tr'. snd (InitializeChromedp w target timeout delay port jsCode tr) =
            tr @ [Slog LevelDebug ''Initializing Chrome browser''
                      [(''target'', S target), (''timeout'', I timeout), (''delay'', I delay),
                       (''remotePort'', S port), (''hasJSCode'', B (jsCode \<noteq> []))],
                  Slog LevelDebug ''Testing connection to remote Chrome instance''
                      [(''testURL'', S (remoteURL_of port @ ''/json/version''))],
                  HttpGet (remoteURL_of port @ ''/json/version'')] @ tr'
          \<and> filter is_probe tr' = []"
    and "\<And>e. fst (InitializeChromedp w target timeout delay port jsCode tr) = Inl e \<Longrightarrow> \<not> is_format_error e"
proof -
  define u where "u = remoteURL_of port"
  have u: "(if \<not> HasPrefix port ''http://'' \<and> \<not> HasPrefix port ''https://''
            then ''http://'' @ port else port) = u"
    by (simp only: u_def remoteURL_of_def)
  have v: "Contains port '':''" "length (Split port (CHR '':'')) = 2"
     "Split port (CHR '':'') ! 0 \<noteq> []" "Split port (CHR '':'') ! 1 \<noteq> []"
    using assms(2) validation_iff [of port] by auto
  show "\<exists>tr'. snd (InitializeChromedp w target timeout delay port jsCode tr) =
            tr @ [Slog LevelDebug ''Initializing Chrome browser''
                      [(''target'', S target), (''timeout'', I timeout), (''delay'', I delay),
                       (''remotePort'', S port), (''hasJSCode'', B (jsCode \<noteq> []))],
                  Slog LevelDebug ''Testing connection to remote Chrome instance''
                      [(''testURL'', S (remoteURL_of port @ ''/json/version''))],
                  HttpGet (remoteURL_of port @ ''/json/version'')] @ tr'
          \<and> filter is_probe tr' = []"
    unfolding InitializeChromedp_def Let_def u u_def [symmetric]
    using assms(1) v
    by (simp split: sum.splits option.splits prod.splits)
  show "\<And>e. fst (InitializeChromedp w target timeout delay port jsCode tr) = Inl e \<Longrightarrow> \<not> is_format_error e"
    unfolding InitializeChromedp_def Let_def u
    using assms(1) v
    by (auto split: sum.splits option.splits if_splits)
qed

text \<open>The shape, in the words of the specification.\<close>

lemma host_port_shape_iff:
  "host_port_shape s \<longleftrightarrow>
     (\<exists>host port. s = host @ '':'' @ port \<and> host \<noteq> [] \<and> port \<noteq> []
        \<and> CHR '':'' \<notin> set host \<and> CHR '':'' \<notin> set port)"
proof
  assume hp: "host_port_shape s"
  then have "CHR '':'' \<in> set s"
    using count_list_0_iff [of s "CHR '':''"] by (auto simp: host_port_shape_def)
  define h where "h = takeWhile (\<lambda>x. x \<noteq> CHR '':'') s"
  define p where "p = tl (dropWhile (\<lambda>x. x \<noteq> CHR '':'') s)"
  have s: "s = h @ CHR '':'' # p" unfolding h_def p_def by (rule split_at_first) fact
  have h: "CHR '':'' \<notin> set h" unfolding h_def by (auto dest: set_takeWhileD)
  have "count_list h (CHR '':'') = 0" using h by (simp add: count_list_0_iff)
  then have "count_list (h @ CHR '':'' # p) (CHR '':'') = 1 + count_list p (CHR '':'')" by simp
  then have "count_list p (CHR '':'') = 0" using hp s by (simp add: host_port_shape_def)
  then have "CHR '':'' \<notin> set p" by (simp add: count_list_0_iff)
  moreover have "h \<noteq> []" "p \<noteq> []" using hp by (simp_all add: host_port_shape_def h_def p_def)
  ultimately show "\<exists>host port. s = host @ '':'' @ port \<and> host \<noteq> [] \<and> port \<noteq> []
        \<and> CHR '':'' \<notin> set host \<and> CHR '':'' \<notin> set port"
    using s h by auto
next
  assume "\<exists>host port. s = host @ '':'' @ port \<and> host \<noteq> [] \<and> port \<noteq> []
        \<and> CHR '':'' \<notin> set host \<and> CHR '':'' \<notin> set port"
  then obtain h p where s: "s = h @ CHR '':'' # p" and ne: "h \<noteq> []" "p \<noteq> []"
    and h: "CHR '':'' \<notin> set h" and p: "CHR '':'' \<notin> set p" by auto
  have "count_list h (CHR '':'') = 0" "count_list p (CHR '':'') = 0"
    using h p by (simp_all add: count_list_0_iff)
  then have "count_list s (CHR '':'') = 1" using s by simp
  moreover have "takeWhile (\<lambda>x. x \<noteq> CHR '':'') s = h"
    using s h by (auto simp: takeWhile_tail)
  moreover have "dropWhile (\<lambda>x. x \<noteq> CHR '':'') s = CHR '':'' # p"
    using s h by (auto simp: dropWhile_append3)
  ultimately show "host_port_shape s" using ne by (simp add: host_port_shape_def)
qed

lemma endpoint_examples:
  "host_port_shape ''localhost:9222''" "\<not> host_port_shape ''localhost''"
  "\<not> host_port_shape ''localhost:''" "\<not> host_port_shape '':9222''"
  "\<not> host_port_shape ''http://localhost:9222''"
  by (simp_all add: host_port_shape_def)

text \<open>
  Claim C4. When a remote endpoint is supplied (the string is not empty; the empty string
  selects a local browser), establishment returns a format error, and the probe request
  is not sent, unless the string has exactly one colon between two non-empty components;
  when it has that shape no format error is returned and the probe is the one request
  sent. The four endpoints named by the claim are instances, in the witness below.
\<close>

theorem remote_endpoint_validation:
  assumes "remoteDebuggingPort \<noteq> []"
  shows "(\<not> host_port_shape remoteDebuggingPort \<longrightarrow>
            (\<exists>e. fst (InitializeChromedp w target timeout delay remoteDebuggingPort jsCode tr) = Inl e
                  \<and> is_format_error e)
            \<and> filter is_probe (snd (InitializeChromedp w target timeout delay remoteDebuggingPort jsCode tr))
                = filter is_probe tr)
       \<and> (host_port_shape remoteDebuggingPort \<longrightarrow>
            (\<forall>e. fst (InitializeChromedp w target timeout delay remoteDebuggingPort jsCode tr) = Inl e
                  \<longrightarrow> \<not> is_format_error e)
            \<and> filter is_probe (snd (InitializeChromedp w target timeout delay remoteDebuggingPort jsCode tr))
                = filter is_probe tr @ [HttpGet (remoteURL_of remoteDebuggingPort @ ''/json/version'')])"
proof (intro conjI impI)
  assume n: "\<not> host_port_shape remoteDebuggingPort"
  from Initialize_rejects [OF assms n, of w target timeout delay jsCode tr]
  obtain e where e: "InitializeChromedp w target timeout delay remoteDebuggingPort jsCode tr =
           (Inl e, tr @ [Slog LevelDebug ''Initializing Chrome browser''
                      [(''target'', S target), (''timeout'', I timeout), (''delay'', I delay),
                       (''remotePort'', S remoteDebuggingPort), (''hasJSCode'', B (jsCode \<noteq> []))]])"
     and f: "is_format_error e" by blast
  show "\<exists>e. fst (InitializeChromedp w target timeout delay remoteDebuggingPort jsCode tr) = Inl e
                  \<and> is_format_error e" using e f by simp
  show "filter is_probe (snd (InitializeChromedp w target timeout delay remoteDebuggingPort jsCode tr))
                = filter is_probe tr" using e by simp
next
  assume y: "host_port_shape remoteDebuggingPort"
  show "\<forall>e. fst (InitializeChromedp w target timeout delay remoteDebuggingPort jsCode tr) = Inl e
                  \<longrightarrow> \<not> is_format_error e"
    using Initialize_probes(2) [OF assms y] by blast
  from Initialize_probes(1) [OF assms y, of w target timeout delay jsCode tr]
  show "filter is_probe (snd (InitializeChromedp w target timeout delay remoteDebuggingPort jsCode tr))
                = filter is_probe tr @ [HttpGet (remoteURL_of remoteDebuggingPort @ ''/json/version'')]"
    by auto
qed

theorem remote_endpoint_validation_witness:
  "''localhost'' \<noteq> [] \<and> \<not> host_port_shape ''localhost''
   \<and> (\<exists>e. fst (InitializeChromedp quiet_world ''https://example.com'' 10 2 ''localhost'' [] []) = Inl e
           \<and> is_format_error e)
   \<and> filter is_probe (snd (InitializeChromedp quiet_world ''https://example.com'' 10 2 ''localhost'' [] [])) = []
   \<and> (\<exists>e. fst (InitializeChromedp quiet_world ''https://example.com'' 10 2 ''localhost:'' [] []) = Inl e
           \<and> is_format_error e)
   \<and> (\<exists>e. fst (InitializeChromedp quiet_world ''https://example.com'' 10 2 '':9222'' [] []) = Inl e
           \<and> is_format_error e)
   \<and> ''localhost:9222'' \<noteq> [] \<and> host_port_shape ''localhost:9222''
   \<and> filter is_probe (snd (InitializeChromedp quiet_world ''https://example.com'' 10 2 ''localhost:9222'' [] []))
        = [HttpGet ''http://localhost:9222/json/version'']"
  using remote_endpoint_validation [of "''localhost''" quiet_world "''https://example.com''" 10 2 "[]" "[]"]
    remote_endpoint_validation [of "''localhost:''" quiet_world "''https://example.com''" 10 2 "[]" "[]"]
    remote_endpoint_validation [of "'':9222''" quiet_world "''https://example.com''" 10 2 "[]" "[]"]
    remote_endpoint_validation [of "''localhost:9222''" quiet_world "''https://example.com''" 10 2 "[]" "[]"]
  by (simp add: host_port_shape_def remoteURL_of_def)

lemma Initialize_remote_success:
  assumes "InitializeChromedp w target timeout delay port jsCode tr0 = (Inr b, tr1)" and "port \<noteq> []"
  shows "b = \<lparr>Ctx = WithTimeout (TaskContext (RemoteAllocator Background (remoteURL_of port))) (seconds timeout),
              Cancel = (\<lambda>t. cancel (RemoteAllocator Background (remoteURL_of port))
                         (cancel (TaskContext (RemoteAllocator Background (remoteURL_of port)))
                           (cancel (WithTimeout (TaskContext (RemoteAllocator Background (remoteURL_of port))) (seconds timeout)) t))),
              TargetURL = target, Delay = delay, JSCode = jsCode\<rparr>"
proof -
  define u where "u = remoteURL_of port"
  have u: "(if \<not> HasPrefix port ''http://'' \<and> \<not> HasPrefix port ''https://''
            then ''http://'' @ port else port) = u"
    by (simp only: u_def remoteURL_of_def)
  show ?thesis
    using assms unfolding InitializeChromedp_def Let_def u u_def [symmetric]
    by (auto split: if_splits sum.splits prod.splits)
qed

lemma Initialize_local:
  "InitializeChromedp w target timeout delay [] jsCode tr0 =
     (Inr \<lparr>Ctx = WithTimeout (TaskContext Background) (seconds timeout),
           Cancel = (\<lambda>t. cancel (TaskContext Background) (cancel (WithTimeout (TaskContext Background) (seconds timeout)) t)),
           TargetURL = target, Delay = delay, JSCode = jsCode\<rparr>,
      tr0 @ [Slog LevelDebug ''Initializing Chrome browser''
                      [(''target'', S target), (''timeout'', I timeout), (''delay'', I delay),
                       (''remotePort'', S []), (''hasJSCode'', B (jsCode \<noteq> []))],
             Slog LevelDebug ''Creating new headless Chrome instance'' [],
             Slog LevelDebug ''Chrome context created successfully'' []])"
  by (simp add: InitializeChromedp_def Let_def)

text \<open>
  Claim C9. The cancel function of a session established remotely invokes the cancel of
  the deadline context, then the cancel of the task context, then the cancel of the
  allocator connection, each once and in that order; that of a session established
  locally invokes the cancel of the deadline context, then the cancel of the browser
  context it was derived from.
\<close>

theorem cancellation_order:
  assumes "InitializeChromedp w target timeout delay remoteDebuggingPort jsCode tr0 = (Inr b, tr1)"
  shows "(remoteDebuggingPort \<noteq> [] \<longrightarrow>
            Ctx b = WithTimeout (TaskContext (RemoteAllocator Background (remoteURL_of remoteDebuggingPort))) (seconds timeout)
            \<and> Cancel b tr = tr @ [Canceled (Ctx b),
                                  Canceled (TaskContext (RemoteAllocator Background (remoteURL_of remoteDebuggingPort))),
                                  Canceled (RemoteAllocator Background (remoteURL_of remoteDebuggingPort))])
       \<and> (remoteDebuggingPort = [] \<longrightarrow>
            Ctx b = WithTimeout (TaskContext Background) (seconds timeout)
            \<and> Cancel b tr = tr @ [Canceled (Ctx b), Canceled (TaskContext Background)])"
proof (cases "remoteDebuggingPort = []")
  case True
  then show ?thesis using assms by (auto simp: Initialize_local cancel_def)
next
  case False
  show ?thesis
    using False by (simp add: Initialize_remote_success [OF assms False] cancel_def)
qed

theorem cancellation_order_witness:
  "fst (InitializeChromedp quiet_world ''https://example.com'' 12 2 ''localhost:9222'' [] []) =
      Inr (projr (fst (InitializeChromedp quiet_world ''https://example.com'' 12 2 ''localhost:9222'' [] [])))
   \<and> Cancel (projr (fst (InitializeChromedp quiet_world ''https://example.com'' 12 2 ''localhost:9222'' [] []))) [] =
     [Canceled (WithTimeout (TaskContext (RemoteAllocator Background ''http://localhost:9222'')) 12000000000),
      Canceled (TaskContext (RemoteAllocator Background ''http://localhost:9222'')),
      Canceled (RemoteAllocator Background ''http://localhost:9222'')]
   \<and> Cancel (projr (fst (InitializeChromedp quiet_world ''https://example.com'' 12 2 [] [] []))) [] =
     [Canceled (WithTimeout (TaskContext Background) 12000000000),
      Canceled (TaskContext Background)]"
proof -
  obtain b tr1 where r: "InitializeChromedp quiet_world ''https://example.com'' 12 2 ''localhost:9222'' [] [] = (Inr b, tr1)"
    by (simp add: InitializeChromedp_def Let_def quiet_world_def)
  obtain b' tr1' where l: "InitializeChromedp quiet_world ''https://example.com'' 12 2 [] [] [] = (Inr b', tr1')"
    by (simp add: InitializeChromedp_def Let_def)
  show ?thesis
    using cancellation_order [OF r, of "[]"] cancellation_order [OF l, of "[]"] r l
    by (simp add: remoteURL_of_def seconds_def Second_def)
qed

section \<open>Action executors\<close>

lemma Run_single: "Run w ctx [a] st = a w ctx st"
  by (cases "a w ctx st") (auto split: option.splits)

lemma TakeScreenshot_calls:
  "filter is_call (snd (TakeScreenshot w b tr)) = filter is_call tr @ [Call (Ctx b) (FullScreenshot 90)]"
  by (simp add: TakeScreenshot_def Run_single FullScreenshotAction_def Let_def split: sum.splits)

lemma PrintToPDF_calls:
  "filter is_call (snd (PrintToPDF w b tr)) = filter is_call tr @ [Call (Ctx b) (PagePrintToPDF True)]"
  by (simp add: PrintToPDF_def Run_single ActionFunc_def Let_def split: sum.splits)

lemma GetTextBySelector_calls:
  "filter is_call (snd (GetTextBySelector w b sel tr)) =
     filter is_call tr @ [Call (Ctx b) (EvaluateStrings (selectorPrefix @ sel @ selectorSuffix))]"
  by (simp add: GetTextBySelector_def Run_single Evaluate_def Let_def split: sum.splits)

lemma navigate_is_call: "is_navigate ev \<Longrightarrow> is_call ev"
  by (cases ev rule: is_navigate.cases) simp_all

lemma filter_navigate_call: "filter is_navigate (filter is_call tr) = filter is_navigate tr"
  by (induction tr) (auto dest: navigate_is_call)

text \<open>
  Claim C2. On an established session each executor (screenshot, PDF, text by selector,
  body text) sends exactly one request, on the context of the session, and that request
  is not a navigation: the navigations in the trace after the executor are those before
  it.
\<close>

theorem executors_do_not_navigate:
  "filter is_call (snd (TakeScreenshot w b tr)) = filter is_call tr @ [Call (Ctx b) (FullScreenshot 90)]
   \<and> filter is_call (snd (PrintToPDF w b tr)) = filter is_call tr @ [Call (Ctx b) (PagePrintToPDF True)]
   \<and> filter is_call (snd (GetTextBySelector w b sel tr)) =
       filter is_call tr @ [Call (Ctx b) (EvaluateStrings (selectorPrefix @ sel @ selectorSuffix))]
   \<and> filter is_call (snd (GetBodyText w b tr)) =
       filter is_call tr @ [Call (Ctx b) (EvaluateStrings (selectorPrefix @ ''body'' @ selectorSuffix))]
   \<and> filter is_navigate (snd (TakeScreenshot w b tr)) = filter is_navigate tr
   \<and> filter is_navigate (snd (PrintToPDF w b tr)) = filter is_navigate tr
   \<and> filter is_navigate (snd (GetTextBySelector w b sel tr)) = filter is_navigate tr
   \<and> filter is_navigate (snd (GetBodyText w b tr)) = filter is_navigate tr"
proof -
  have n: "\<And>tr' r. filter is_call tr' = filter is_call tr @ [Call (Ctx b) r] \<Longrightarrow> \<not> is_navigate (Call (Ctx b) r)
            \<Longrightarrow> filter is_navigate tr' = filter is_navigate tr"
  proof -
    fix tr' r assume a: "filter is_call tr' = filter is_call tr @ [Call (Ctx b) r]" and b: "\<not> is_navigate (Call (Ctx b) r)"
    have "filter is_navigate tr' = filter is_navigate (filter is_call tr')" by (simp only: filter_navigate_call)
    also have "\<dots> = filter is_navigate (filter is_call tr)" using b by (simp only: a filter_append filter.simps if_False append_Nil2)
    finally show "filter is_navigate tr' = filter is_navigate tr" by (simp only: filter_navigate_call)
  qed
  show ?thesis
    by (simp add: TakeScreenshot_calls PrintToPDF_calls GetTextBySelector_calls GetBodyText_def
          n [OF TakeScreenshot_calls] n [OF PrintToPDF_calls] n [OF GetTextBySelector_calls])
qed

section \<open>The event bridge\<close>

lemma collectValues_map: "collectValues args values = values @ map strip_quotes args"
proof (induction args arbitrary: "values")
  case Nil
  then show ?case by simp
next
  case (Cons arg args)
  have "(if 2 \<le> length arg \<and> arg ! 0 = CHR 0x22 \<and> arg ! (length arg - 1) = CHR 0x22
                 then drop 1 (take (length arg - 1) arg) else arg) = strip_quotes arg"
  proof (cases "2 \<le> length arg")
    case False
    then show ?thesis by (simp add: strip_quotes_def)
  next
    case True
    then have ne: "arg \<noteq> []" by auto
    have "arg ! 0 = hd arg" using ne by (simp add: hd_conv_nth)
    moreover have "arg ! (length arg - 1) = last arg" using ne by (simp add: last_conv_nth)
    moreover have "drop 1 (take (length arg - 1) arg) = butlast (tl arg)"
      by (simp add: butlast_conv_take drop_take drop_Suc)
    ultimately show ?thesis by (simp add: strip_quotes_def)
  qed
  then show ?case using Cons.IH by (simp add: Let_def)
qed

text \<open>
  Claim C7. For a console event the listener takes the value of every argument, removes
  the surrounding double quotes of each value that starts and ends with one and has at
  least two characters, joins the results with one space, and writes exactly one log
  entry of level Info with the method type and the joined text.
\<close>

theorem console_event_logged:
  "listener b (EventConsoleAPICalled type args) tr =
     tr @ [Slog LevelInfo ''Console message captured''
             [(''type'', S type), (''value'', S (Join (map strip_quotes args) '' ''))]]"
  by (simp add: listener_def collectValues_map)

text \<open>
  Claim C8. Attaching the bridge returns no error, whatever the session and the trace:
  \<^verbatim>\<open>CaptureConsoleLogs\<close> only calls \<^verbatim>\<open>SetupConsoleLogListeners\<close>, which registers the
  listener between two log calls, asks nothing of the environment and has no error to
  return.
\<close>

theorem attach_cannot_fail:
  "fst (CaptureConsoleLogs b tr) = None
   \<and> snd (CaptureConsoleLogs b tr) = SetupConsoleLogListeners b tr
   \<and> SetupConsoleLogListeners b tr =
       tr @ [Slog LevelDebug ''Setting up console log listeners'' [],
             ListenTarget (Ctx b),
             Slog LevelDebug ''Console log listeners set up successfully'' []]"
  by (simp add: CaptureConsoleLogs_def SetupConsoleLogListeners_def)

section \<open>Script injection\<close>

lemma executeJSAction_empty:
  "JSCode b = [] \<Longrightarrow> executeJSAction b w ctx st = (None, st)"
  by (simp add: executeJSAction_def ActionFunc_def)

lemma executeJSAction_await:
  assumes "JSCode b \<noteq> []" and "Contains (JSCode b) ''await''"
  shows "executeJSAction b w ctx (tr, u) =
     (let js = ''(async () => { '' @ JSCode b @ '' })();'';
          tr1 = tr @ [Slog LevelDebug ''Executing custom JavaScript''
                                 [(''codeLength'', I (of_nat (length (JSCode b)))), (''hasAwait'', B True)]]
      in case runtime_evaluate w tr1 ctx js True of
                    Inl err \<Rightarrow>
                      (Some (Errorf ''failed to execute custom JavaScript: %w'' [E err]),
                       (tr1 @ [Call ctx (RuntimeEvaluate js True),
                              Slog LevelError ''Failed to execute custom JavaScript'' [(''error'', E err)]], u))
                  | Inr (Some exceptionText) \<Rightarrow>
                      (Some (Errorf ''JavaScript exception: %s'' [S exceptionText]),
                       (tr1 @ [Call ctx (RuntimeEvaluate js True),
                              Slog LevelError ''JavaScript exception during execution'' [(''exception'', S exceptionText)]], u))
                  | Inr None \<Rightarrow>
                      (None,
                       (tr1 @ [Call ctx (RuntimeEvaluate js True),
                              Slog LevelDebug ''Custom JavaScript executed successfully'' []], u)))"
  using assms by (simp add: executeJSAction_def ActionFunc_def Let_def split: sum.splits option.splits)

lemma executeJSAction_sync:
  assumes "JSCode b \<noteq> []" and "\<not> Contains (JSCode b) ''await''"
  shows "executeJSAction b w ctx (tr, u) =
     (let tr1 = tr @ [Slog LevelDebug ''Executing custom JavaScript''
                                 [(''codeLength'', I (of_nat (length (JSCode b)))), (''hasAwait'', B False)]]
      in case evaluate_value w tr1 ctx (JSCode b) of
                    Some err \<Rightarrow>
                      (Some (Errorf ''failed to execute custom JavaScript: %w'' [E err]),
                       (tr1 @ [Call ctx (EvaluateValue (JSCode b)),
                              Slog LevelError ''Failed to execute custom JavaScript'' [(''error'', E err)]], u))
                  | None \<Rightarrow>
                      (None,
                       (tr1 @ [Call ctx (EvaluateValue (JSCode b)),
                              Slog LevelDebug ''Custom JavaScript executed successfully'' []], u)))"
  using assms by (simp add: executeJSAction_def ActionFunc_def Let_def split: option.splits)

lemma executeJSAction_calls:
  "filter is_call (fst (snd (executeJSAction b w ctx (tr, u)))) =
     filter is_call tr @ map (Call ctx) (injectionRequests b)"
proof (cases "JSCode b = []")
  case True
  then show ?thesis by (simp add: executeJSAction_empty injectionRequests_def)
next
  case False
  show ?thesis
  proof (cases "Contains (JSCode b) ''await''")
    case True
    show ?thesis
      unfolding executeJSAction_await [OF False True] Let_def
      using False True
      by (simp add: injectionRequests_def split: sum.splits option.splits)
  next
    case nc: False
    show ?thesis
      unfolding executeJSAction_sync [OF False nc] Let_def
      using False nc
      by (simp add: injectionRequests_def split: option.splits)
  qed
qed

text \<open>
  Claim C3. For a configured script (a text that is not empty; the empty text means no
  script): if \<^verbatim>\<open>await\<close> occurs in the text as a substring, whatever surrounds it, the
  one request of the injection action is a \<^verbatim>\<open>Runtime.evaluate\<close> of
  \<^verbatim>\<open>(async () => { \<close> followed by the text and \<^verbatim>\<open> })();\<close>, with the promise awaited, and the
  action succeeds exactly when that evaluation ended without an error or an exception;
  otherwise the one request is the direct evaluation of the text as it is, not wrapped
  and without awaiting. The action returns only with the outcome of its request, so
  nothing that follows it in the pipeline starts earlier.
\<close>

theorem async_detection:
  assumes "JSCode b \<noteq> []"
  shows "((\<exists>xs ys. JSCode b = xs @ ''await'' @ ys) \<longrightarrow>
            filter is_call (fst (snd (executeJSAction b w ctx (tr, u)))) =
              filter is_call tr @ [Call ctx (RuntimeEvaluate (''(async () => { '' @ JSCode b @ '' })();'') True)]
            \<and> (fst (executeJSAction b w ctx (tr, u)) = None \<longleftrightarrow>
                 runtime_evaluate w
                   (tr @ [Slog LevelDebug ''Executing custom JavaScript''
                            [(''codeLength'', I (of_nat (length (JSCode b)))), (''hasAwait'', B True)]])
                   ctx (''(async () => { '' @ JSCode b @ '' })();'') True = Inr None))
       \<and> (\<not> (\<exists>xs ys. JSCode b = xs @ ''await'' @ ys) \<longrightarrow>
            filter is_call (fst (snd (executeJSAction b w ctx (tr, u)))) =
              filter is_call tr @ [Call ctx (EvaluateValue (JSCode b))]
            \<and> (fst (executeJSAction b w ctx (tr, u)) = None \<longleftrightarrow>
                 evaluate_value w
                   (tr @ [Slog LevelDebug ''Executing custom JavaScript''
                            [(''codeLength'', I (of_nat (length (JSCode b)))), (''hasAwait'', B False)]])
                   ctx (JSCode b) = None))"
proof (cases "Contains (JSCode b) ''await''")
  case True
  then have ex: "\<exists>xs ys. JSCode b = xs @ ''await'' @ ys" by (simp only: Contains_iff)
  have "fst (executeJSAction b w ctx (tr, u)) = None \<longleftrightarrow>
                 runtime_evaluate w
                   (tr @ [Slog LevelDebug ''Executing custom JavaScript''
                            [(''codeLength'', I (of_nat (length (JSCode b)))), (''hasAwait'', B True)]])
                   ctx (''(async () => { '' @ JSCode b @ '' })();'') True = Inr None"
    unfolding executeJSAction_await [OF assms True] Let_def
    by (simp split: sum.splits option.splits)
  then show ?thesis
    using ex executeJSAction_calls [of b w ctx tr u] assms True
    by (simp add: injectionRequests_def)
next
  case False
  then have nex: "\<not> (\<exists>xs ys. JSCode b = xs @ ''await'' @ ys)" by (simp only: Contains_iff not_False_eq_True)
  have "fst (executeJSAction b w ctx (tr, u)) = None \<longleftrightarrow>
                 evaluate_value w
                   (tr @ [Slog LevelDebug ''Executing custom JavaScript''
                            [(''codeLength'', I (of_nat (length (JSCode b)))), (''hasAwait'', B False)]])
                   ctx (JSCode b) = None"
    unfolding executeJSAction_sync [OF assms False] Let_def
    by (simp split: option.splits)
  then show ?thesis
    using nex executeJSAction_calls [of b w ctx tr u] assms False
    by (simp add: injectionRequests_def)
qed

text \<open>The substring test has no word boundary (\<^verbatim>\<open>xawaity\<close> is wrapped) and is
  case-sensitive (\<^verbatim>\<open>AWAIT x\<close> is not).\<close>

theorem async_detection_witness:
  "JSCode (local_browser 2 ''xawaity'') \<noteq> []
   \<and> (\<exists>xs ys. JSCode (local_browser 2 ''xawaity'') = xs @ ''await'' @ ys)
   \<and> filter is_call (fst (snd (executeJSAction (local_browser 2 ''xawaity'') quiet_world Background ([], ())))) =
       [Call Background (RuntimeEvaluate ''(async () => { xawaity })();'' True)]
   \<and> JSCode (local_browser 2 ''AWAIT x'') \<noteq> []
   \<and> \<not> (\<exists>xs ys. JSCode (local_browser 2 ''AWAIT x'') = xs @ ''await'' @ ys)
   \<and> filter is_call (fst (snd (executeJSAction (local_browser 2 ''AWAIT x'') quiet_world Background ([], ())))) =
       [Call Background (EvaluateValue ''AWAIT x'')]"
proof -
  have "\<exists>xs ys. ''xawaity'' = xs @ ''await'' @ ys"
    by (rule iffD1 [OF Contains_iff]) simp
  then have a: "\<exists>xs ys. JSCode (local_browser 2 ''xawaity'') = xs @ ''await'' @ ys"
    by (simp only: local_browser_def Browser.simps)
  have "\<not> Contains ''AWAIT x'' ''await''" by simp
  then have "\<not> (\<exists>xs ys. ''AWAIT x'' = xs @ ''await'' @ ys)"
    using Contains_iff [of "''AWAIT x''" "''await''"] by blast
  then have b: "\<not> (\<exists>xs ys. JSCode (local_browser 2 ''AWAIT x'') = xs @ ''await'' @ ys)"
    by (simp only: local_browser_def Browser.simps not_False_eq_True)
  have c: "JSCode (local_browser 2 ''xawaity'') \<noteq> []" "JSCode (local_browser 2 ''AWAIT x'') \<noteq> []"
    by (simp_all add: local_browser_def)
  show ?thesis
    using a b c async_detection [OF c(1), of quiet_world Background "[]" "()"]
      async_detection [OF c(2), of quiet_world Background "[]" "()"]
    by (simp add: local_browser_def)
qed

section \<open>The navigation pipeline\<close>

lemma sint_seconds:
  assumes "- 9223372036 \<le> sint d" and "sint d \<le> 9223372036"
  shows "sint (seconds d) = sint d * 1000000000"
proof -
  have "sint (seconds d) = signed_take_bit 63 (sint d * 1000000000)"
    by (simp add: seconds_def Second_def sint_word_ariths)
  also have "\<dots> = sint d * 1000000000"
    using assms by (intro signed_take_bit_int_eq_self) simp_all
  finally show ?thesis .
qed

lemma NavigateAndPrepare_calls:
  "\<exists>k. filter is_call (snd (NavigateAndPrepare w b tr)) = filter is_call tr @ take k (pipelineCalls b)"
  and NavigateAndPrepare_success_calls: "fst (NavigateAndPrepare w b tr) = None \<Longrightarrow>
       filter is_call (snd (NavigateAndPrepare w b tr)) = filter is_call tr @ pipelineCalls b"
proof -
  define tr0 where "tr0 = tr @ [Slog LevelDebug ''Navigating to target URL'' [(''url'', S (TargetURL b))]]"
  define tr1 where "tr1 = tr0 @ [Call (Ctx b) (PageNavigate (TargetURL b))]"
  define tr2 where "tr2 = tr1 @ [Slog LevelDebug ''Applying rendering delay''
                                   [(''delay'', I (Delay b)), (''url'', S (TargetURL b))]]"
  define tr3 where "tr3 = tr2 @ [Call (Ctx b) (SleepFor (seconds (Delay b)))]"
  define inj where "inj = executeJSAction b w (Ctx b) (tr3, ())"
  have c3: "filter is_call tr3 = filter is_call tr @ [Call (Ctx b) (PageNavigate (TargetURL b)),
              Call (Ctx b) (SleepFor (seconds (Delay b)))]"
    by (simp add: tr3_def tr2_def tr1_def tr0_def)
  have cinj: "filter is_call (fst (snd inj)) = filter is_call tr @ pipelineCalls b"
    unfolding inj_def executeJSAction_calls c3 by (simp add: pipelineCalls_def)
  have run: "NavigateAndPrepare w b tr =
     (case navigate w tr0 (Ctx b) (TargetURL b) of
        Some err \<Rightarrow> (Some err, tr1 @ [Slog LevelError ''Failed to navigate and prepare page''
                                 [(''url'', S (TargetURL b)), (''error'', E err)]])
      | None \<Rightarrow>
        (case sleep w tr2 (Ctx b) (seconds (Delay b)) of
           Some err \<Rightarrow> (Some err, tr3 @ [Slog LevelError ''Failed to navigate and prepare page''
                                 [(''url'', S (TargetURL b)), (''error'', E err)]])
         | None \<Rightarrow>
           (case fst inj of
              Some err \<Rightarrow> (Some err, fst (snd inj) @ [Slog LevelError ''Failed to navigate and prepare page''
                                 [(''url'', S (TargetURL b)), (''error'', E err)]])
            | None \<Rightarrow> (None, fst (snd inj) @ [Slog LevelDebug ''Navigation and preparation completed successfully'' []]))))"
    unfolding NavigateAndPrepare_def Let_def tr0_def [symmetric]
    by (cases inj)
       (simp add: Navigate_def Sleep_def ActionFunc_def tr1_def tr2_def tr3_def inj_def
          split: option.splits prod.splits)
  have t1: "filter is_call tr1 = filter is_call tr @ take 1 (pipelineCalls b)"
    by (simp add: tr1_def tr0_def pipelineCalls_def)
  have t3: "filter is_call tr3 = filter is_call tr @ take 2 (pipelineCalls b)"
    by (simp add: c3 pipelineCalls_def)
  have tall: "filter is_call (fst (snd inj)) = filter is_call tr @ take (length (pipelineCalls b)) (pipelineCalls b)"
    by (simp add: cinj)
  show "\<exists>k. filter is_call (snd (NavigateAndPrepare w b tr)) = filter is_call tr @ take k (pipelineCalls b)"
  proof (cases "navigate w tr0 (Ctx b) (TargetURL b)")
    case (Some err)
    then have "filter is_call (snd (NavigateAndPrepare w b tr)) = filter is_call tr @ take 1 (pipelineCalls b)"
      by (simp add: run t1)
    then show ?thesis by blast
  next
    case None
    show ?thesis
    proof (cases "sleep w tr2 (Ctx b) (seconds (Delay b))")
      case (Some err)
      then have "filter is_call (snd (NavigateAndPrepare w b tr)) = filter is_call tr @ take 2 (pipelineCalls b)"
        using None by (simp add: run t3)
      then show ?thesis by blast
    next
      case n2: None
      have "filter is_call (snd (NavigateAndPrepare w b tr)) =
              filter is_call tr @ take (length (pipelineCalls b)) (pipelineCalls b)"
        using None n2 by (simp add: run tall split: option.splits)
      then show ?thesis by blast
    qed
  qed
  show "fst (NavigateAndPrepare w b tr) = None \<Longrightarrow>
       filter is_call (snd (NavigateAndPrepare w b tr)) = filter is_call tr @ pipelineCalls b"
    by (simp add: run cinj split: option.splits)
qed

text \<open>
  Claim C5, as amended. For every run of \<^verbatim>\<open>NavigateAndPrepare\<close> on a session whose
  delay is between \<open>-9223372036\<close> and \<open>9223372036\<close> seconds (so that the delay in
  nanoseconds is representable in a \<^verbatim>\<open>time.Duration\<close>): the requests sent are an initial
  part of the list navigation, sleep, injection, in that order, and the whole list when
  the run succeeds; the sleep is of exactly the configured delay; without a script the
  injection action sends nothing and returns success; and the request of an executor
  called after a successful run follows all of them.
\<close>

theorem pipeline_order:
  assumes "- 9223372036 \<le> sint (Delay b)" and "sint (Delay b) \<le> 9223372036"
  shows "(\<exists>k. filter is_call (snd (NavigateAndPrepare w b tr)) = filter is_call tr @ take k (pipelineCalls b))
       \<and> (fst (NavigateAndPrepare w b tr) = None \<longrightarrow>
            filter is_call (snd (NavigateAndPrepare w b tr)) = filter is_call tr @ pipelineCalls b
            \<and> filter is_call (snd (TakeScreenshot w b (snd (NavigateAndPrepare w b tr)))) =
                filter is_call tr @ pipelineCalls b @ [Call (Ctx b) (FullScreenshot 90)]
            \<and> filter is_call (snd (PrintToPDF w b (snd (NavigateAndPrepare w b tr)))) =
                filter is_call tr @ pipelineCalls b @ [Call (Ctx b) (PagePrintToPDF True)]
            \<and> filter is_call (snd (GetTextBySelector w b sel (snd (NavigateAndPrepare w b tr)))) =
                filter is_call tr @ pipelineCalls b
                  @ [Call (Ctx b) (EvaluateStrings (selectorPrefix @ sel @ selectorSuffix))])
       \<and> pipelineCalls b =
           Call (Ctx b) (PageNavigate (TargetURL b)) # Call (Ctx b) (SleepFor (seconds (Delay b)))
             # map (Call (Ctx b)) (injectionRequests b)
       \<and> sint (seconds (Delay b)) = sint (Delay b) * 1000000000
       \<and> (JSCode b = [] \<longrightarrow> injectionRequests b = [] \<and> (\<forall>ctx st. executeJSAction b w ctx st = (None, st)))"
proof -
  have p: "pipelineCalls b =
           Call (Ctx b) (PageNavigate (TargetURL b)) # Call (Ctx b) (SleepFor (seconds (Delay b)))
             # map (Call (Ctx b)) (injectionRequests b)"
    by (simp add: pipelineCalls_def)
  have e: "JSCode b = [] \<longrightarrow> injectionRequests b = [] \<and> (\<forall>ctx st. executeJSAction b w ctx st = (None, st))"
    by (simp add: executeJSAction_empty injectionRequests_def)
  have s: "fst (NavigateAndPrepare w b tr) = None \<longrightarrow>
            filter is_call (snd (NavigateAndPrepare w b tr)) = filter is_call tr @ pipelineCalls b
            \<and> filter is_call (snd (TakeScreenshot w b (snd (NavigateAndPrepare w b tr)))) =
                filter is_call tr @ pipelineCalls b @ [Call (Ctx b) (FullScreenshot 90)]
            \<and> filter is_call (snd (PrintToPDF w b (snd (NavigateAndPrepare w b tr)))) =
                filter is_call tr @ pipelineCalls b @ [Call (Ctx b) (PagePrintToPDF True)]
            \<and> filter is_call (snd (GetTextBySelector w b sel (snd (NavigateAndPrepare w b tr)))) =
                filter is_call tr @ pipelineCalls b
                  @ [Call (Ctx b) (EvaluateStrings (selectorPrefix @ sel @ selectorSuffix))]"
    by (simp add: TakeScreenshot_calls PrintToPDF_calls GetTextBySelector_calls NavigateAndPrepare_success_calls)
  show ?thesis
    using NavigateAndPrepare_calls [of w b tr] sint_seconds [OF assms] p e s by blast
qed

theorem pipeline_order_witness:
  "- 9223372036 \<le> sint (Delay (local_browser 2 [])) \<and> sint (Delay (local_browser 2 [])) \<le> 9223372036
   \<and> fst (NavigateAndPrepare quiet_world (local_browser 2 []) []) = None
   \<and> JSCode (local_browser 2 []) = []
   \<and> filter is_call (snd (NavigateAndPrepare quiet_world (local_browser 2 []) [])) =
       [Call (Ctx (local_browser 2 [])) (PageNavigate ''https://example.com''),
        Call (Ctx (local_browser 2 [])) (SleepFor 2000000000)]
   \<and> filter is_call (snd (TakeScreenshot quiet_world (local_browser 2 [])
          (snd (NavigateAndPrepare quiet_world (local_browser 2 []) [])))) =
       [Call (Ctx (local_browser 2 [])) (PageNavigate ''https://example.com''),
        Call (Ctx (local_browser 2 [])) (SleepFor 2000000000),
        Call (Ctx (local_browser 2 [])) (FullScreenshot 90)]"
proof -
  have ok: "fst (NavigateAndPrepare quiet_world (local_browser 2 []) []) = None"
    by (simp add: NavigateAndPrepare_def Navigate_def Sleep_def ActionFunc_def executeJSAction_def
          quiet_world_def local_browser_def)
  have r: "- 9223372036 \<le> sint (Delay (local_browser 2 []))" "sint (Delay (local_browser 2 [])) \<le> 9223372036"
    by (simp_all add: local_browser_def)
  show ?thesis
    using pipeline_order [OF r, of quiet_world "[]"] ok r
    by (simp add: pipelineCalls_def injectionRequests_def local_browser_def seconds_def Second_def)
qed

text \<open>
  Claim C5 as stated fails where the delay in nanoseconds leaves the range of
  \<^verbatim>\<open>time.Duration\<close>: for a session with a delay of 9223372037 seconds the product
  \<^verbatim>\<open>time.Duration(b.Delay) * time.Second\<close> wraps, and the sleep requested between the
  navigation and the end of the run is of a negative duration, not of the delay.
\<close>

theorem pipeline_order_counterexample:
  "fst (NavigateAndPrepare quiet_world (local_browser 9223372037 []) []) = None
   \<and> filter is_call (snd (NavigateAndPrepare quiet_world (local_browser 9223372037 []) [])) =
       [Call (Ctx (local_browser 9223372037 [])) (PageNavigate ''https://example.com''),
        Call (Ctx (local_browser 9223372037 [])) (SleepFor (seconds 9223372037))]
   \<and> sint (Delay (local_browser 9223372037 [])) = 9223372037
   \<and> sint (seconds 9223372037) = - 9223372036709551616
   \<and> sint (seconds 9223372037) \<noteq> 9223372037 * 1000000000"
  by (simp add: NavigateAndPrepare_def Navigate_def Sleep_def ActionFunc_def executeJSAction_def
          quiet_world_def local_browser_def seconds_def Second_def)

section \<open>Text by selector\<close>

lemma joinTexts_pos:
  "0 < i \<Longrightarrow> joinTexts i texts result = result @ concat (map (\<lambda>t. CHR 0x0A # t) texts)"
  by (induction texts arbitrary: i result) simp_all

lemma Join_concat: "Join (t # ts) sep = t @ concat (map (\<lambda>x. sep @ x) ts)"
  by (induction ts arbitrary: t) simp_all

lemma joinTexts_Join: "joinTexts 0 texts [] = Join texts [CHR 0x0A]"
proof (cases texts)
  case Nil
  then show ?thesis by simp
next
  case (Cons t ts)
  then show ?thesis by (simp add: joinTexts_pos Join_concat)
qed

lemma GetTextBySelector_result:
  "fst (GetTextBySelector w b sel tr) =
     (case evaluate_strings w (tr @ [Slog LevelDebug ''Extracting text by CSS selector'' [(''selector'', S sel)]])
             (Ctx b) (selectorPrefix @ sel @ selectorSuffix) of
        Inl err \<Rightarrow> Inl err
      | Inr texts \<Rightarrow> Inr (Join texts [CHR 0x0A]))"
  by (simp add: GetTextBySelector_def Run_single Evaluate_def Let_def joinTexts_Join split: sum.splits)

lemma text_by_selector_evaluated:
  assumes "evaluate_strings w (tr @ [Slog LevelDebug ''Extracting text by CSS selector'' [(''selector'', S sel)]])
             (Ctx b) (selectorPrefix @ sel @ selectorSuffix) = selectorExpression doc sel"
  shows "fst (GetTextBySelector w b sel tr) =
           (case querySelectorAll doc sel of
              Inl err \<Rightarrow> Inl err
            | Inr els \<Rightarrow>
                Inr (Join (filter (\<lambda>text. text \<noteq> []) (map (\<lambda>el. stringTrim doc (innerText el)) els)) [CHR 0x0A]))"
  by (simp add: GetTextBySelector_result assms selectorExpression_def split: sum.splits)

lemma js_single_quoted_ordinary:
  assumes "c \<noteq> CHR 0x5C"
  shows "js_single_quoted (c # cs) =
     (if c = CHR 0x27 then Literal [] cs
      else if c = CHR 0x0A \<or> c = CHR 0x0D then Unterminated
      else lex_cons [c] (js_single_quoted cs))"
  using assms by (cases cs) simp_all




lemma js_single_quoted_plain:
  "plain_text p \<Longrightarrow> js_single_quoted (p @ CHR 0x27 # r) = Literal p r"
proof (induction p)
  case Nil
  then show ?case by (simp add: js_single_quoted_ordinary)
next
  case (Cons c p)
  then have c: "c \<noteq> CHR 0x27" "c \<noteq> CHR 0x5C" "c \<noteq> CHR 0x0A" "c \<noteq> CHR 0x0D" and p: "plain_text p"
    by (auto simp: plain_text_def split: if_splits)
  show ?case using c Cons.IH [OF p] by (simp add: js_single_quoted_ordinary)
qed

lemma selectorSuffix_quote: "selectorSuffix = CHR 0x27 # tl selectorSuffix"
  by (simp add: selectorSuffix_def)

lemma js_single_quoted_selector_plain:
  "plain_text sel \<Longrightarrow> js_single_quoted (sel @ selectorSuffix) = Literal sel (tl selectorSuffix)"
  using js_single_quoted_plain [of sel "tl selectorSuffix"] selectorSuffix_quote by simp



lemma script_engine_plain:
  assumes "plain_text sel" and "\<not> list_ex digit7 sel"
  shows "script_engine doc other (selectorPrefix @ sel @ selectorSuffix) = selectorExpression doc sel"
proof -
  have "\<not> list_ex digit7 selectorPrefix" "\<not> list_ex digit7 selectorSuffix"
    by (simp_all add: selectorPrefix_def selectorSuffix_def)
  then have "\<not> list_ex digit7 (selectorPrefix @ sel @ selectorSuffix)"
    using assms(2) by (auto simp: list_ex_iff)
  then show ?thesis
    by (simp add: script_engine_def js_single_quoted_selector_plain [OF assms(1)])
qed

lemma text_by_selector_plain:
  assumes "plain_text sel" and "\<not> list_ex digit7 sel"
  shows "fst (GetTextBySelector (page_world doc other) b sel tr) =
           (case querySelectorAll doc sel of
              Inl err \<Rightarrow> Inl err
            | Inr els \<Rightarrow>
                Inr (Join (filter (\<lambda>text. text \<noteq> []) (map (\<lambda>el. stringTrim doc (innerText el)) els)) [CHR 0x0A]))"
  by (rule text_by_selector_evaluated) (simp add: page_world_def script_engine_plain [OF assms])

lemma text_by_selector_headings:
  "fst (GetTextBySelector (page_world headings_page other) (local_browser 2 []) ''h1'' []) =
     Inr (''Title'' @ [CHR 0x0A] @ ''Sub'')"
  "fst (GetTextBySelector (page_world headings_page other) (local_browser 2 []) ''h2'' []) = Inr []"
  by (simp_all add: text_by_selector_plain plain_text_def headings_page_def trimSpaces_def)

lemma js_single_quoted_quoted_selector:
  "js_single_quoted (quoted_selector @ selectorSuffix) =
     Literal ''a[title='' (''x'' @ [CHR 0x27] @ '']'' @ selectorSuffix)"
  by (simp add: quoted_selector_def selectorSuffix_def)


text \<open>
  Claim C6 at the selector \<^verbatim>\<open>a[title='x']\<close>, on a page with one matching link whose text
  is \<^verbatim>\<open>Link\<close>. The selector is spliced between the two literals as it is, so the
  expression sent is \<^verbatim>\<open>Array.from(document.querySelectorAll('a[title='x']'))\<close>... : its first
  string ends after \<^verbatim>\<open>a[title=\<close> and is followed by \<^verbatim>\<open>x\<close>. The browser rejects it and the
  action returns the error, where the claim has it return \<^verbatim>\<open>Link\<close>, whatever the browser
  answers to the texts the model leaves open. For a selector of ASCII characters
  without a single quote, a backslash or a line break the action returns what the claim
  says (\<open>text_by_selector_plain\<close>).
\<close>

theorem text_by_selector_quoted_selector:
  "filter is_call (snd (GetTextBySelector (page_world link_page other) (local_browser 2 []) quoted_selector [])) =
     [Call (Ctx (local_browser 2 []))
        (EvaluateStrings ([CHR 0x0A, CHR 0x09, CHR 0x09, CHR 0x09]
           @ ''Array.from(document.querySelectorAll('a[title='x']')).map(el => el.innerText.trim()).filter(text => text.length > 0)''
           @ [CHR 0x0A, CHR 0x09, CHR 0x09]))]
   \<and> takeWhile (\<lambda>c. c \<noteq> CHR 0x27) (quoted_selector @ selectorSuffix) = ''a[title=''
   \<and> querySelectorAll link_page quoted_selector = Inr [\<lparr>innerText = ''Link'', textContent = ''Link''\<rparr>]
   \<and> fst (GetTextBySelector (page_world link_page other) (local_browser 2 []) quoted_selector []) =
        Inl (External ''SyntaxError'')"
proof -
  have e: "script_engine link_page other (selectorPrefix @ quoted_selector @ selectorSuffix) =
             Inl (External ''SyntaxError'')"
  proof -
    have "\<not> list_ex digit7 (selectorPrefix @ quoted_selector @ selectorSuffix)"
      by (simp add: selectorPrefix_def quoted_selector_def selectorSuffix_def)
    then show ?thesis
      by (simp add: script_engine_def js_single_quoted_quoted_selector)
         (simp add: selectorSuffix_def identifier_start_def identifier_part_def)
  qed
  have r: "fst (GetTextBySelector (page_world link_page other) (local_browser 2 []) quoted_selector []) =
        Inl (External ''SyntaxError'')"
    by (simp add: GetTextBySelector_result page_world_def quiet_world_def e)
  have c: "filter is_call (snd (GetTextBySelector (page_world link_page other) (local_browser 2 []) quoted_selector [])) =
     [Call (Ctx (local_browser 2 []))
        (EvaluateStrings ([CHR 0x0A, CHR 0x09, CHR 0x09, CHR 0x09]
           @ ''Array.from(document.querySelectorAll('a[title='x']')).map(el => el.innerText.trim()).filter(text => text.length > 0)''
           @ [CHR 0x0A, CHR 0x09, CHR 0x09]))]"
    by (simp add: GetTextBySelector_calls quoted_selector_def selectorPrefix_def selectorSuffix_def)
  have t: "takeWhile (\<lambda>c. c \<noteq> CHR 0x27) (quoted_selector @ selectorSuffix) = ''a[title=''"
    by (simp add: quoted_selector_def)
  have q: "querySelectorAll link_page quoted_selector = Inr [\<lparr>innerText = ''Link'', textContent = ''Link''\<rparr>]"
    by (simp add: link_page_def)
  show ?thesis using c t q r by blast
qed




section \<open>The earlier revision\<close>

lemma Run_two:
  "Run w ctx [a, a'] st = (case a w ctx st of (Some err, st') \<Rightarrow> (Some err, st') | (None, st') \<Rightarrow> a' w ctx st')"
  by (simp add: Run_single split: prod.splits option.splits)

text \<open>In the earlier revision each executor navigates before its own request.\<close>

lemma earlier_executors_navigate:
  "filter is_navigate (snd (TakeScreenshot_earlier w b tr)) =
     filter is_navigate tr @ [Call (Ctx b) (PageNavigate (TargetURL b))]"
  "filter is_navigate (snd (PrintToPDF_earlier w b tr)) =
     filter is_navigate tr @ [Call (Ctx b) (PageNavigate (TargetURL b))]"
  "filter is_navigate (snd (GetTextBySelector_earlier w b sel tr)) =
     filter is_navigate tr @ [Call (Ctx b) (PageNavigate (TargetURL b))]"
  by (simp_all add: TakeScreenshot_earlier_def PrintToPDF_earlier_def GetTextBySelector_earlier_def
        Run_two Navigate_def FullScreenshotAction_def Evaluate_def ActionFunc_def Let_def
        split: option.splits sum.splits)

text \<open>In the earlier revision attaching the listener navigates, and fails when the
  navigation does.\<close>

lemma earlier_capture_can_fail:
  "fst (CaptureConsoleLogs_earlier w b tr) =
     navigate w (tr @ [Slog LevelDebug ''Setting up console log listeners'' [],
                      ListenTarget (Ctx b),
                      Slog LevelDebug ''Navigating to target URL for console log capture''
                        [(''url'', S (TargetURL b))]]) (Ctx b) (TargetURL b)"
  by (simp add: CaptureConsoleLogs_earlier_def Run_single Navigate_def Let_def split: option.splits)

text \<open>In the earlier revision a console event gives one entry for each argument, with
  the quotes of a string left in place.\<close>

lemma earlier_console_entries:
  "length (listener_console_earlier type args tr) = length tr + length args"
  "listener_console_earlier type [[CHR 0x22, CHR ''a'', CHR 0x22], ''1''] [] =
     [Slog LevelInfo ''Console message captured'' [(''type'', S type), (''value'', S [CHR 0x22, CHR ''a'', CHR 0x22])],
      Slog LevelInfo ''Console message captured'' [(''type'', S type), (''value'', S ''1'')]]"
  by (simp_all add: listener_console_earlier_def)

end
